theory Spec2Isabelle
  imports Complex_Main "HOL-Library.Word" "HOL-Library.Log_Nat"
begin

section \<open>Durations, instants and errors\<close>

text \<open>
  \<^verbatim>\<open>time.Duration\<close> is an \<^verbatim>\<open>int64\<close> count of nanoseconds: a 64-bit word, read
  as two's complement by \<open>sint\<close>. An instant (\<^verbatim>\<open>time.Time\<close>) is a point on the
  nanosecond time line. The attempt number is Go's \<^verbatim>\<open>int\<close>; it is modelled as an
  unbounded integer (a retry cycle does not reach \<open>2^63\<close> attempts).
\<close>

type_synonym duration = "64 word"
type_synonym time = int

text \<open>\<^verbatim>\<open>var Exit time.Duration = -1\<close>\<close>

definition Exit :: duration where
  "Exit = - 1"

text \<open>
  \<^verbatim>\<open>Time.Sub\<close> of the standard library: the difference of two instants, saturated to
  the smallest and the largest duration.
\<close>

definition Sub :: "time \<Rightarrow> time \<Rightarrow> duration" where
  "Sub t u =
     (if t - u < - (2 ^ 63) then word_of_int (- (2 ^ 63))
      else if 2 ^ 63 - 1 < t - u then word_of_int (2 ^ 63 - 1)
      else word_of_int (t - u))"

text \<open>
  A Go \<^verbatim>\<open>error\<close> value returned by an attempt is either an \<^verbatim>\<open>*ExitError\<close>, which
  carries its cause (an \<^verbatim>\<open>error\<close>, possibly \<^verbatim>\<open>nil\<close>), or any other error, told apart
  by its message. \<open>None\<close> is \<^verbatim>\<open>nil\<close>. A nil pointer of type \<^verbatim>\<open>*ExitError\<close> and a callback
  that panics are not modelled.
\<close>

datatype error = Error string | ExitError "error option"

text \<open>\<^verbatim>\<open>func ForceExit(err error) error { return &ExitError{Cause: err} }\<close>\<close>

definition ForceExit :: "error option \<Rightarrow> error option" where
  "ForceExit err = Some (ExitError err)"

datatype panic = NegativeDelay | NegativeMultiplier | SpreadOutOfRange

section \<open>The float64 arithmetic used by the strategies\<close>

text \<open>
  A \<^verbatim>\<open>float64\<close> is a finite binary64 number (a rational), an infinity or NaN. The two
  zeros are not told apart: no operation below depends on the sign of a zero. Every
  arithmetic operation rounds its exact result to the nearest binary64 number, ties to
  even (\<open>round64\<close>); operations are rounded one by one, none is fused.
\<close>

datatype float64 = Fin rat | PInf | MInf | NaN

definition ilog2 :: "rat \<Rightarrow> int" where
  "ilog2 a = (if 1 \<le> a then bitlen \<lfloor>a\<rfloor> - 1 else - bitlen (\<lceil>1 / a\<rceil> - 1))"

definition round_half_even :: "rat \<Rightarrow> int" where
  "round_half_even s =
     (if s - of_int \<lfloor>s\<rfloor> < 1 / 2 then \<lfloor>s\<rfloor>
      else if 1 / 2 < s - of_int \<lfloor>s\<rfloor> then \<lfloor>s\<rfloor> + 1
      else if even \<lfloor>s\<rfloor> then \<lfloor>s\<rfloor> else \<lfloor>s\<rfloor> + 1)"

text \<open>
  The unit in the last place of a number of magnitude \<open>a\<close> is \<open>2 powi ulp_exp a\<close>:
  53 significant bits, and the exponent of a subnormal number is that of the smallest
  normal one.
\<close>

definition ulp_exp :: "rat \<Rightarrow> int" where
  "ulp_exp a = max (ilog2 a) (- 1022) - 52"

definition round_to_ulp :: "rat \<Rightarrow> rat" where
  "round_to_ulp a = of_int (round_half_even (a / 2 powi ulp_exp a)) * 2 powi ulp_exp a"

definition round64 :: "rat \<Rightarrow> float64" where
  "round64 x =
     (if x = 0 then Fin 0
      else if 2 ^ 1024 \<le> round_to_ulp \<bar>x\<bar> then (if 0 < x then PInf else MInf)
      else Fin (sgn x * round_to_ulp \<bar>x\<bar>))"

text \<open>A rational is a binary64 number when rounding leaves it as it is.\<close>

definition exact64 :: "rat \<Rightarrow> bool" where
  "exact64 x = (round64 x = Fin x)"

fun fneg :: "float64 \<Rightarrow> float64" where
  "fneg (Fin a) = Fin (- a)"
| "fneg PInf = MInf"
| "fneg MInf = PInf"
| "fneg NaN = NaN"

fun fadd :: "float64 \<Rightarrow> float64 \<Rightarrow> float64" where
  "fadd (Fin a) (Fin b) = round64 (a + b)"
| "fadd NaN y = NaN"
| "fadd x NaN = NaN"
| "fadd PInf MInf = NaN"
| "fadd MInf PInf = NaN"
| "fadd PInf y = PInf"
| "fadd MInf y = MInf"
| "fadd x PInf = PInf"
| "fadd x MInf = MInf"

definition fsub :: "float64 \<Rightarrow> float64 \<Rightarrow> float64" where
  "fsub x y = fadd x (fneg y)"

fun fmul :: "float64 \<Rightarrow> float64 \<Rightarrow> float64" where
  "fmul (Fin a) (Fin b) = round64 (a * b)"
| "fmul NaN y = NaN"
| "fmul x NaN = NaN"
| "fmul (Fin a) PInf = (if a = 0 then NaN else if 0 < a then PInf else MInf)"
| "fmul (Fin a) MInf = (if a = 0 then NaN else if 0 < a then MInf else PInf)"
| "fmul PInf (Fin b) = (if b = 0 then NaN else if 0 < b then PInf else MInf)"
| "fmul MInf (Fin b) = (if b = 0 then NaN else if 0 < b then MInf else PInf)"
| "fmul PInf PInf = PInf"
| "fmul MInf MInf = PInf"
| "fmul PInf MInf = MInf"
| "fmul MInf PInf = MInf"

text \<open>The comparisons \<^verbatim>\<open><\<close>, \<^verbatim>\<open>==\<close> and \<^verbatim>\<open>>=\<close>: each is false when an operand is NaN.\<close>

fun flt :: "float64 \<Rightarrow> float64 \<Rightarrow> bool" where
  "flt (Fin a) (Fin b) = (a < b)"
| "flt NaN y = False"
| "flt x NaN = False"
| "flt x MInf = False"
| "flt PInf y = False"
| "flt MInf y = True"
| "flt x PInf = True"

definition feq :: "float64 \<Rightarrow> float64 \<Rightarrow> bool" where
  "feq x y = (x \<noteq> NaN \<and> x = y)"

definition fge :: "float64 \<Rightarrow> float64 \<Rightarrow> bool" where
  "fge x y = (flt y x \<or> feq x y)"

text \<open>The conversions \<^verbatim>\<open>float64(d)\<close> of a duration and \<^verbatim>\<open>float64(n)\<close> of an \<^verbatim>\<open>int\<close>.\<close>

definition float64_of_duration :: "duration \<Rightarrow> float64" where
  "float64_of_duration d = round64 (of_int (sint d))"

definition float64_of_int :: "int \<Rightarrow> float64" where
  "float64_of_int n = round64 (of_int n)"

definition trunc :: "rat \<Rightarrow> int" where
  "trunc x = (if 0 \<le> x then \<lfloor>x\<rfloor> else \<lceil>x\<rceil>)"

section \<open>What the Go runtime decides\<close>

text \<open>
  Three things are not fixed by the repository but by the platform the code runs on:
  \<^item> \<open>pow\<close>: \<^verbatim>\<open>math.Pow\<close> of the standard library;
  \<^item> \<open>overflow\<close>: the value of the conversion \<^verbatim>\<open>time.Duration(f)\<close> when the truncated
    \<open>f\<close> is not an \<^verbatim>\<open>int64\<close> (or \<open>f\<close> is NaN); the Go specification leaves this value
    to the implementation;
  \<^item> \<open>ready\<close>: which case of the \<^verbatim>\<open>select\<close> statement in \<^verbatim>\<open>TryWithContext\<close> becomes
    ready first while waiting for a delay, and the world after the wait.
  The world \<open>'w\<close> is everything outside the retry cycle that the callbacks, the clock,
  the random source and the context read or change.
\<close>

datatype select_case = CtxDone | TimerFired

record 'w runtime =
  pow :: "float64 \<Rightarrow> float64 \<Rightarrow> float64"
  overflow :: "float64 \<Rightarrow> duration"
  ready :: "duration \<Rightarrow> 'w \<Rightarrow> select_case \<times> 'w"

text \<open>The conversion \<^verbatim>\<open>time.Duration(f)\<close>: truncation towards zero.\<close>

definition duration_of_float64 :: "'w runtime \<Rightarrow> float64 \<Rightarrow> duration" where
  "duration_of_float64 R f =
     (case f of
        Fin x \<Rightarrow>
          if - (2 ^ 63) \<le> trunc x \<and> trunc x \<le> 2 ^ 63 - 1 then word_of_int (trunc x)
          else overflow R f
      | _ \<Rightarrow> overflow R f)"

text \<open>
  \<^verbatim>\<open>math.Pow(x, y)\<close> as the Go documentation gives it: the special cases in the order
  of the documentation (with one zero for both), then, for a whole number \<open>y\<close>, the power
  rounded once. An exponential strategy calls it with \<open>x\<close> not negative and \<open>y\<close> a whole
  number. A finite \<open>y\<close> that is not a whole number is outside this model: \<open>NaN\<close> stands
  for the result there, which is what \<^verbatim>\<open>math.Pow\<close> returns for a negative \<open>x\<close> only.
\<close>

definition math_Pow :: "float64 \<Rightarrow> float64 \<Rightarrow> float64" where
  "math_Pow x y =
     (if y = Fin 0 \<or> x = Fin 1 then Fin 1
      else if y = Fin 1 then x
      else if x = NaN \<or> y = NaN then NaN
      else case (x, y) of
          (Fin a, Fin b) \<Rightarrow>
            if a = 0 then (if b < 0 then PInf else Fin 0)
            else if of_int \<lfloor>b\<rfloor> = b then round64 (a powi \<lfloor>b\<rfloor>)
            else NaN
        | (Fin a, PInf) \<Rightarrow> if 1 < \<bar>a\<bar> then PInf else if \<bar>a\<bar> < 1 then Fin 0 else Fin 1
        | (Fin a, MInf) \<Rightarrow> if 1 < \<bar>a\<bar> then Fin 0 else if \<bar>a\<bar> < 1 then PInf else Fin 1
        | (PInf, Fin b) \<Rightarrow> if 0 < b then PInf else Fin 0
        | (PInf, PInf) \<Rightarrow> PInf
        | (PInf, MInf) \<Rightarrow> Fin 0
        | (MInf, Fin b) \<Rightarrow>
            if b < 0 then Fin 0 else if of_int \<lfloor>b\<rfloor> = b \<and> odd \<lfloor>b\<rfloor> then MInf else PInf
        | (MInf, PInf) \<Rightarrow> PInf
        | (MInf, MInf) \<Rightarrow> Fin 0
        | _ \<Rightarrow> NaN)"

text \<open>
  On amd64 the conversion instruction answers every operand out of range with the
  smallest \<^verbatim>\<open>int64\<close>.
\<close>

definition amd64 :: "(duration \<Rightarrow> 'w \<Rightarrow> select_case \<times> 'w) \<Rightarrow> 'w runtime" where
  "amd64 sel = \<lparr>pow = math_Pow, overflow = (\<lambda>f. word_of_int (- (2 ^ 63))), ready = sel\<rparr>"

section \<open>Package backoff: strategies\<close>

type_synonym 'w Clock = "'w \<Rightarrow> time \<times> 'w"
type_synonym 'w Random = "'w \<Rightarrow> float64 \<times> 'w"

text \<open>
  The implementations of the interface \<^verbatim>\<open>Strategy\<close>: one constructor for each struct
  of the package, with the struct's fields (\<open>constant_delay\<close> is the struct
  \<^verbatim>\<open>constant\<close>), and \<open>custom\<close> for an implementation from outside the package (its
  \<^verbatim>\<open>Delay\<close> method).
\<close>

datatype 'w Strategy =
    constant_delay duration
  | linear duration duration
  | exponential duration float64
  | cap "'w Strategy" duration
  | jitter "'w Strategy" float64 "'w Random"
  | limit "'w Strategy" int
  | timeout "'w Strategy" "'w Clock" duration
  | custom "int \<Rightarrow> time \<Rightarrow> 'w \<Rightarrow> duration \<times> 'w"

text \<open>
  Modelled from the spec: the file that declares the struct \<^verbatim>\<open>cap\<close>, its method
  \<^verbatim>\<open>Delay\<close> and the constructor \<^verbatim>\<open>Cap\<close> is missing from the sources. The spec gives
  the delay of a cap as \<open>min(inner(n,start), max)\<close>.
\<close>

definition cap_Delay :: "duration \<Rightarrow> duration \<Rightarrow> duration" where
  "cap_Delay mx delay = (if sint mx < sint delay then mx else delay)"

text \<open>The method \<^verbatim>\<open>Delay(n, start)\<close> of each struct.\<close>

fun Delay :: "'w runtime \<Rightarrow> 'w Strategy \<Rightarrow> int \<Rightarrow> time \<Rightarrow> 'w \<Rightarrow> duration \<times> 'w" where
  "Delay R (constant_delay d) n start w = (d, w)"
| "Delay R (linear d k) n start w =
     (if sint (k * word_of_int (n - 1) + d) < 0 then (0, w)
      else (k * word_of_int (n - 1) + d, w))"
| "Delay R (exponential d m) n start w =
     (duration_of_float64 R (fmul (float64_of_duration d) (pow R m (float64_of_int (n - 1)))), w)"
| "Delay R (cap s mx) n start w =
     (case Delay R s n start w of
        (delay, w') \<Rightarrow> (cap_Delay mx delay, w'))"
| "Delay R (jitter s spread random) n start w =
     (case Delay R s n start w of
        (delay, w1) \<Rightarrow>
          if delay = Exit then (delay, w1)
          else case random w1 of
            (r, w2) \<Rightarrow>
              (duration_of_float64 R
                 (fadd (fsub (float64_of_duration delay) (fmul (float64_of_duration delay) spread))
                       (fmul r (fadd (fmul (Fin 2) (fmul (float64_of_duration delay) spread)) (Fin 1)))),
               w2))"
| "Delay R (limit s nmax) n start w =
     (if nmax \<le> n then (Exit, w) else Delay R s n start w)"
| "Delay R (timeout s clock lmt) n start w =
     (case clock w of
        (now, w') \<Rightarrow> if sint lmt \<le> sint (Sub now start) then (Exit, w') else Delay R s n start w')"
| "Delay R (custom f) n start w = f n start w"

text \<open>The constructor functions. A panic is the left summand.\<close>

definition Constant :: "duration \<Rightarrow> panic + 'w Strategy" where
  "Constant d = (if sint d < 0 then Inl NegativeDelay else Inr (constant_delay d))"

definition Once :: "'w Strategy" where
  "Once = constant_delay Exit"

definition Linear :: "duration \<Rightarrow> duration \<Rightarrow> panic + 'w Strategy" where
  "Linear d k =
     (if sint d < 0 then Inl NegativeDelay
      else if k = 0 then Constant d
      else Inr (linear d k))"

definition Exponential :: "duration \<Rightarrow> float64 \<Rightarrow> panic + 'w Strategy" where
  "Exponential d m =
     (if sint d < 0 then Inl NegativeDelay
      else if flt m (Fin 0) then Inl NegativeMultiplier
      else if d = 0 \<or> feq m (Fin 0) then Constant 0
      else if feq m (Fin 1) then Constant d
      else Inr (exponential d m))"

text \<open>
  Modelled from the spec: the constructor \<^verbatim>\<open>Cap\<close> is missing from the sources (see
  \<open>cap_Delay\<close>). The spec gives \<open>max \<le> 0\<close> as a no-op that returns the inner strategy.
\<close>

definition Cap :: "'w Strategy \<Rightarrow> duration \<Rightarrow> 'w Strategy" where
  "Cap s mx = (if sint mx \<le> 0 then s else cap s mx)"

definition Jitter :: "'w Strategy \<Rightarrow> float64 \<Rightarrow> 'w Random \<Rightarrow> panic + 'w Strategy" where
  "Jitter s spread random =
     (if flt spread (Fin 0) \<or> fge spread (Fin 1) then Inl SpreadOutOfRange
      else if feq spread (Fin 0) then Inr s
      else Inr (jitter s spread random))"

definition Limit :: "'w Strategy \<Rightarrow> int \<Rightarrow> 'w Strategy" where
  "Limit s n = (if n < 1 then s else limit s n)"

definition Timeout :: "'w Strategy \<Rightarrow> duration \<Rightarrow> 'w Clock \<Rightarrow> 'w Strategy" where
  "Timeout s lmt clock = (if sint lmt \<le> 0 then s else timeout s clock lmt)"

section \<open>Package retry: the cycler\<close>

text \<open>
  An attempt and an error handler are callbacks of the caller: they read and change the
  world. \<^verbatim>\<open>AttemptFunc func(n int) error\<close>,
  \<^verbatim>\<open>ErrorHandlerFunc func(n int, delay time.Duration, err error)\<close>.
\<close>

type_synonym 'w AttemptFunc = "int \<Rightarrow> 'w \<Rightarrow> error option \<times> 'w"
type_synonym 'w ErrorHandlerFunc = "int \<Rightarrow> duration \<Rightarrow> error \<Rightarrow> 'w \<Rightarrow> 'w"

record 'w Cycler =
  strategy :: "'w Strategy"
  handlers :: "'w ErrorHandlerFunc list"
  Clock :: "'w Clock"

text \<open>\<open>dflt\<close> is the package's default clock, the variable \<^verbatim>\<open>now\<close>.\<close>

definition NewCycler :: "'w Clock \<Rightarrow> 'w Strategy \<Rightarrow> 'w Cycler" where
  "NewCycler dflt s = \<lparr>strategy = s, handlers = [], Clock = dflt\<rparr>"

definition OnError :: "'w Cycler \<Rightarrow> 'w ErrorHandlerFunc \<Rightarrow> 'w Cycler" where
  "OnError c handler = c\<lparr>handlers := handlers c @ [handler]\<rparr>"

definition Cycler_Cap :: "'w Cycler \<Rightarrow> duration \<Rightarrow> 'w Cycler" where
  "Cycler_Cap c mx = c\<lparr>strategy := Cap (strategy c) mx\<rparr>"

text \<open>\<open>random\<close> is the package's default random source, the function \<^verbatim>\<open>random\<close>.\<close>

definition Cycler_Jitter :: "'w Random \<Rightarrow> 'w Cycler \<Rightarrow> float64 \<Rightarrow> panic + 'w Cycler" where
  "Cycler_Jitter random c spread =
     (case Jitter (strategy c) spread random of
        Inl p \<Rightarrow> Inl p
      | Inr s \<Rightarrow> Inr (c\<lparr>strategy := s\<rparr>))"

definition Cycler_Limit :: "'w Cycler \<Rightarrow> int \<Rightarrow> 'w Cycler" where
  "Cycler_Limit c n = c\<lparr>strategy := Limit (strategy c) n\<rparr>"

definition Cycler_Timeout :: "'w Cycler \<Rightarrow> duration \<Rightarrow> 'w Cycler" where
  "Cycler_Timeout c lmt = c\<lparr>strategy := Timeout (strategy c) lmt (Clock c)\<rparr>"

text \<open>
  A \<^verbatim>\<open>context.Context\<close>, as far as the cycler uses it: whether the channel
  \<^verbatim>\<open>ctx.Done()\<close> is closed, and \<^verbatim>\<open>ctx.Err()\<close>. \<^verbatim>\<open>context.Background()\<close> is never
  done and has no error.
\<close>

record 'w Context =
  Done :: "'w \<Rightarrow> bool"
  Err :: "'w \<Rightarrow> error option"

definition Background :: "'w Context" where
  "Background = \<lparr>Done = (\<lambda>w. False), Err = (\<lambda>w. None)\<rparr>"

text \<open>
  What a retry cycle does is recorded as a trace of events, in the order of the calls:
  the clock read, each call of the attempt with its result, each call of the strategy
  with its result, each call of a handler (with its index in \<open>handlers\<close>, that is its
  rank of registration), each call of \<^verbatim>\<open>ctx.Err()\<close>, the timer operations and the
  case the \<^verbatim>\<open>select\<close> statement took.
\<close>

datatype event =
    ClockTime time
  | Attempt int "error option"
  | StrategyDelay int time duration
  | Handler nat int duration error
  | CtxErr "error option"
  | NewTimer duration
  | TimerReset duration
  | Select select_case
  | TimerStop

type_synonym 'w state = "'w \<times> event list"

text \<open>\<^verbatim>\<open>for _, h := range c.handlers { h(n, delay, err) }\<close>, from handler number \<open>i\<close> on.\<close>

fun notify :: "'w ErrorHandlerFunc list \<Rightarrow> nat \<Rightarrow> int \<Rightarrow> duration \<Rightarrow> error \<Rightarrow> 'w state \<Rightarrow> 'w state" where
  "notify [] i n delay err st = st"
| "notify (h # hs) i n delay err (w, tr) =
     notify hs (Suc i) n delay err (h n delay err w, tr @ [Handler i n delay err])"

text \<open>
  The \<^verbatim>\<open>select\<close> statement: the runtime says which case became ready first; the case
  \<^verbatim>\<open><-ctx.Done()\<close> can only be taken when the channel is closed by then.
\<close>

definition select_wait :: "'w runtime \<Rightarrow> 'w Context \<Rightarrow> duration \<Rightarrow> 'w \<Rightarrow> select_case \<times> 'w" where
  "select_wait R ctx delay w =
     (case ready R delay w of
        (c, w') \<Rightarrow> (if c = CtxDone \<and> Done ctx w' then CtxDone else TimerFired, w'))"

text \<open>\<^verbatim>\<open>if t == nil { t = time.NewTimer(delay) } else { t.Reset(delay) }\<close>\<close>

definition timer_event :: "bool \<Rightarrow> duration \<Rightarrow> event" where
  "timer_event t delay = (if t then TimerReset delay else NewTimer delay)"

text \<open>
  One pass through the body of the loop of \<^verbatim>\<open>TryWithContext\<close>, for attempt number
  \<open>n\<close> (already incremented); \<open>t\<close> tells whether the timer exists. The pass either
  returns from the function or goes on to the next pass.
\<close>

datatype outcome = Return "error option" | Continue

definition iteration ::
  "'w runtime \<Rightarrow> 'w Cycler \<Rightarrow> 'w Context \<Rightarrow> 'w AttemptFunc \<Rightarrow> time \<Rightarrow> int \<Rightarrow> bool \<Rightarrow> 'w state
     \<Rightarrow> outcome \<times> bool \<times> 'w state" where
  "iteration R c ctx attempt start n t st =
     (case st of (w, tr) \<Rightarrow>
      case attempt n w of
        (None, w1) \<Rightarrow> (Return None, t, (w1, tr @ [Attempt n None]))
      | (Some (ExitError cause), w1) \<Rightarrow>
          (Return cause, t, (w1, tr @ [Attempt n (Some (ExitError cause))]))
      | (Some (Error msg), w1) \<Rightarrow>
          (case Delay R (strategy c) n start w1 of
             (delay, w2) \<Rightarrow>
               if delay = Exit then
                 (Return (case Err ctx w2 of None \<Rightarrow> Some (Error msg) | Some e \<Rightarrow> Some e), t,
                  (w2, tr @ [Attempt n (Some (Error msg)), StrategyDelay n start delay,
                             CtxErr (Err ctx w2)]))
               else
                 (case notify (handlers c) 0 n delay (Error msg)
                         (w2, tr @ [Attempt n (Some (Error msg)), StrategyDelay n start delay]) of
                    (w3, tr3) \<Rightarrow>
                      (case select_wait R ctx delay w3 of
                         (CtxDone, w4) \<Rightarrow>
                           (Return (Err ctx w4), True,
                            (w4, tr3 @ [timer_event t delay, Select CtxDone, CtxErr (Err ctx w4)]))
                       | (TimerFired, w4) \<Rightarrow>
                           (Continue, True, (w4, tr3 @ [timer_event t delay, Select TimerFired]))))))"

text \<open>
  The loop \<^verbatim>\<open>for { n++; ... }\<close>. It runs forever when the attempt keeps failing and the
  strategy never exits, so it is given fuel: \<open>None\<close> is a loop that has not returned
  after \<open>fuel\<close> passes.
\<close>

fun retry_loop ::
  "nat \<Rightarrow> 'w runtime \<Rightarrow> 'w Cycler \<Rightarrow> 'w Context \<Rightarrow> 'w AttemptFunc \<Rightarrow> time \<Rightarrow> int \<Rightarrow> bool \<Rightarrow> 'w state
     \<Rightarrow> (error option \<times> bool \<times> 'w state) option" where
  "retry_loop 0 R c ctx attempt start n t st = None"
| "retry_loop (Suc fuel) R c ctx attempt start n t st =
     (case iteration R c ctx attempt start (n + 1) t st of
        (Return err, t', st') \<Rightarrow> Some (err, t', st')
      | (Continue, t', st') \<Rightarrow> retry_loop fuel R c ctx attempt start (n + 1) t' st')"

text \<open>The deferred function: \<^verbatim>\<open>if t != nil { t.Stop() }\<close>.\<close>

definition deferred :: "(error option \<times> bool \<times> 'w state) option \<Rightarrow> (error option \<times> 'w state) option" where
  "deferred r =
     (case r of
        None \<Rightarrow> None
      | Some (err, t, (w, tr)) \<Rightarrow> Some (err, (w, if t then tr @ [TimerStop] else tr)))"

text \<open>
  \<^verbatim>\<open>TryWithContext\<close> from the world \<open>w\<close>: the returned error, the world and the trace
  of the cycle.
\<close>

definition TryWithContext ::
  "nat \<Rightarrow> 'w runtime \<Rightarrow> 'w Cycler \<Rightarrow> 'w Context \<Rightarrow> 'w AttemptFunc \<Rightarrow> 'w
     \<Rightarrow> (error option \<times> 'w state) option" where
  "TryWithContext fuel R c ctx attempt w =
     (case Clock c w of
        (start, w0) \<Rightarrow> deferred (retry_loop fuel R c ctx attempt start 0 False (w0, [ClockTime start])))"

definition Try :: "nat \<Rightarrow> 'w runtime \<Rightarrow> 'w Cycler \<Rightarrow> 'w AttemptFunc \<Rightarrow> 'w \<Rightarrow> (error option \<times> 'w state) option" where
  "Try fuel R c attempt w = TryWithContext fuel R c Background attempt w"

text \<open>
  The loop heads a cycle started in the world \<open>w\<close> passes through: \<open>at_loop_head\<close> holds
  of the start time, the number \<open>n\<close> of attempts made so far, the timer flag and the
  state when the cycle is about to make attempt \<open>n + 1\<close>.
\<close>

inductive at_loop_head ::
  "'w runtime \<Rightarrow> 'w Cycler \<Rightarrow> 'w Context \<Rightarrow> 'w AttemptFunc \<Rightarrow> 'w \<Rightarrow> time \<Rightarrow> int \<Rightarrow> bool \<Rightarrow> 'w state \<Rightarrow> bool"
  for R c ctx attempt w where
    entry: "Clock c w = (start, w0) \<Longrightarrow> at_loop_head R c ctx attempt w start 0 False (w0, [ClockTime start])"
  | again: "at_loop_head R c ctx attempt w start n t st \<Longrightarrow>
           iteration R c ctx attempt start (n + 1) t st = (Continue, t', st') \<Longrightarrow>
           at_loop_head R c ctx attempt w start (n + 1) t' st'"

section \<open>The formulas of the specification\<close>

text \<open>
  The jittered delay as the specification writes it, over the rationals:
  \<open>inner - spread * inner + Random() * (2 * spread * inner + 1)\<close>.
\<close>

definition jitter_value :: "rat \<Rightarrow> rat \<Rightarrow> rat \<Rightarrow> rat" where
  "jitter_value D s r = D - s * D + r * (2 * s * D + 1)"

text \<open>
  No operation of \<^verbatim>\<open>jitter.Delay\<close> rounds: each intermediate result, in the order the
  code computes them, is a binary64 number.
\<close>

definition jitter_exact :: "rat \<Rightarrow> rat \<Rightarrow> rat \<Rightarrow> bool" where
  "jitter_exact D s r =
     (exact64 D \<and> exact64 (D * s) \<and> exact64 (D - D * s) \<and> exact64 (2 * (D * s)) \<and>
      exact64 (2 * (D * s) + 1) \<and> exact64 (r * (2 * (D * s) + 1)) \<and>
      exact64 (D - D * s + r * (2 * (D * s) + 1)))"

text \<open>
  No operation of \<^verbatim>\<open>exponential.Delay\<close> rounds: the two conversions are exact,
  \<^verbatim>\<open>math.Pow\<close> returns the power \<open>m ^ (n - 1)\<close>, and the product is a binary64 number.
\<close>

definition exponential_exact :: "'w runtime \<Rightarrow> int \<Rightarrow> rat \<Rightarrow> int \<Rightarrow> bool" where
  "exponential_exact R d m n =
     (exact64 (of_int d) \<and> exact64 (of_int (n - 1)) \<and>
      pow R (Fin m) (Fin (of_int (n - 1))) = Fin (m ^ nat (n - 1)) \<and>
      exact64 (of_int d * m ^ nat (n - 1)))"

section \<open>Example cycles\<close>

text \<open>
  The fixtures of the repository's tests: the error \<^verbatim>\<open>ErrTest\<close>, clocks and random
  sources that return a fixed value, an observer that records its calls, and attempts
  that fail, force an exit or cancel the context at a given attempt. The example world
  holds whether the context is cancelled and which observer saw which attempt.
\<close>

definition ErrTest :: error where
  "ErrTest = Error ''test''"

definition Canceled :: error where
  "Canceled = Error ''context canceled''"

definition second :: duration where
  "second = 1000000000"

definition millisecond :: duration where
  "millisecond = 1000000"

record world =
  canceled :: bool
  seen :: "(nat \<times> int) list"

definition cancel_ctx :: "world Context" where
  "cancel_ctx = \<lparr>Done = canceled, Err = (\<lambda>w. if canceled w then Some Canceled else None)\<rparr>"

definition fixed_clock :: "time \<Rightarrow> 'w Clock" where
  "fixed_clock now = (\<lambda>w. (now, w))"

definition fixed_random :: "float64 \<Rightarrow> 'w Random" where
  "fixed_random r = (\<lambda>w. (r, w))"

definition observer :: "nat \<Rightarrow> world ErrorHandlerFunc" where
  "observer k = (\<lambda>n delay err w. w\<lparr>seen := seen w @ [(k, n)]\<rparr>)"

definition timer_first :: "duration \<Rightarrow> 'w \<Rightarrow> select_case \<times> 'w" where
  "timer_first delay w = (TimerFired, w)"

definition done_first :: "duration \<Rightarrow> 'w \<Rightarrow> select_case \<times> 'w" where
  "done_first delay w = (CtxDone, w)"

definition observed_cycler :: "world Strategy \<Rightarrow> world Cycler" where
  "observed_cycler s = OnError (OnError (NewCycler (fixed_clock 0) s) (observer 0)) (observer 1)"

definition succeeds :: "'w AttemptFunc" where
  "succeeds n w = (None, w)"

definition always_fails :: "'w AttemptFunc" where
  "always_fails n w = (Some ErrTest, w)"

definition exits_at :: "int \<Rightarrow> 'w AttemptFunc" where
  "exits_at N n w = (if n < N then Some ErrTest else ForceExit (Some ErrTest), w)"

definition cancels_at :: "int \<Rightarrow> world AttemptFunc" where
  "cancels_at N n w = (Some ErrTest, if n = N then w\<lparr>canceled := True\<rparr> else w)"

section \<open>Rounding: binary64 numbers are left as they are\<close>

lemma bitlen_pos: "0 < x \<Longrightarrow> 1 \<le> bitlen x"
  by (simp add: bitlen_alt_def)

lemma ilog2_bounds:
  assumes "0 < a"
  shows "2 powi ilog2 a \<le> a \<and> a < 2 powi (ilog2 a + 1)"
proof (cases "1 \<le> a")
  case True
  define N where "N = \<lfloor>a\<rfloor>"
  have N: "0 < N" using True by (simp add: N_def)
  have b: "2 ^ nat (bitlen N - 1) \<le> N" "N < 2 ^ nat (bitlen N)"
    using bitlen_bounds[OF N] by auto
  have p: "1 \<le> bitlen N" using bitlen_pos[OF N] .
  have e: "ilog2 a = bitlen N - 1" using True by (simp add: ilog2_def N_def)
  have "(2::rat) powi (bitlen N - 1) = of_int (2 ^ nat (bitlen N - 1))"
    using p by (simp add: power_int_def)
  also have "\<dots> \<le> of_int N" using b(1) by (simp only: of_int_le_iff)
  also have "\<dots> \<le> a" by (simp add: N_def)
  finally have lo: "2 powi ilog2 a \<le> a" by (simp add: e)
  have "N + 1 \<le> 2 ^ nat (bitlen N)" using b(2) by simp
  then have "(of_int (N + 1) :: rat) \<le> of_int (2 ^ nat (bitlen N))" by (simp only: of_int_le_iff)
  moreover have "a < of_int (N + 1)" using floor_correct[of a] by (simp add: N_def)
  moreover have "(2::rat) powi (bitlen N) = of_int (2 ^ nat (bitlen N))"
    using p by (simp add: power_int_def)
  ultimately have "a < 2 powi (ilog2 a + 1)" by (simp add: e)
  with lo show ?thesis by simp
next
  case False
  define N where "N = \<lceil>1 / a\<rceil> - 1"
  define k where "k = bitlen N"
  have inv: "1 < 1 / a" using False assms by simp
  then have N: "0 < N" by (simp add: N_def less_ceiling_iff)
  have b: "2 ^ nat (k - 1) \<le> N" "N < 2 ^ nat k"
    using bitlen_bounds[OF N] by (auto simp: k_def)
  have p: "1 \<le> k" using bitlen_pos[OF N] by (simp add: k_def)
  have e: "ilog2 a = - k" using False by (simp add: ilog2_def N_def k_def)
  have "N + 1 \<le> 2 ^ nat k" using b(2) by simp
  then have "(of_int (N + 1) :: rat) \<le> of_int (2 ^ nat k)" by (simp only: of_int_le_iff)
  moreover have "1 / a \<le> of_int (N + 1)" using ceiling_correct[of "1 / a"] by (simp add: N_def)
  ultimately have "1 / a \<le> 2 ^ nat k" by simp
  then have "1 \<le> 2 ^ nat k * a" using assms by (simp add: field_simps)
  then have lo: "2 powi (- k) \<le> a" using p
    by (simp add: power_int_def field_simps)
  have "(2::rat) ^ nat (k - 1) = of_int (2 ^ nat (k - 1))" by simp
  also have "\<dots> \<le> of_int N" using b(1) by (simp only: of_int_le_iff)
  also have "\<dots> < 1 / a" using ceiling_correct[of "1 / a"] by (simp add: N_def)
  finally have "2 ^ nat (k - 1) < 1 / a" .
  then have "a * 2 ^ nat (k - 1) < 1" using assms by (simp add: field_simps)
  then have lt: "a < 1 / 2 ^ nat (k - 1)" by (simp add: pos_less_divide_eq)
  have eq: "(2::rat) powi (- k + 1) = 1 / 2 ^ nat (k - 1)"
  proof -
    have "(2::rat) powi (- k + 1) = 2 powi (- (k - 1))" by simp
    also have "\<dots> = 1 / 2 powi (k - 1)" by (rule power_int_minus_divide)
    also have "\<dots> = 1 / 2 ^ nat (k - 1)" using p by (simp add: power_int_nonneg_exp)
    finally show ?thesis .
  qed
  have "a < 2 powi (- k + 1)" unfolding eq by (rule lt)
  with lo show ?thesis by (simp add: e)
qed

lemma round_half_even_of_int: "round_half_even (of_int n) = n"
  by (simp add: round_half_even_def)


lemma round_to_ulp_exact:
  assumes m: "0 < m" "m < 2 ^ 53" and k: "- 1074 \<le> k"
  shows "round_to_ulp (of_int m * 2 powi k) = of_int m * 2 powi k"
proof -
  define a :: rat where "a = of_int m * 2 powi k"
  define q where "q = ulp_exp a"
  have apos: "0 < a" using m by (simp add: a_def)
  have "a < of_int (2 ^ 53) * 2 powi k"
    unfolding a_def using m(2) by (intro mult_strict_right_mono) (simp_all only: of_int_less_iff, simp)
  also have "\<dots> = 2 powi (53 + k)" by (simp add: power_int_add)
  finally have up: "a < 2 powi (53 + k)" .
  have "ilog2 a < 53 + k"
  proof (rule ccontr)
    assume "\<not> ilog2 a < 53 + k"
    then have "(2::rat) powi (53 + k) \<le> 2 powi ilog2 a"
      by (intro power_int_increasing) simp_all
    with ilog2_bounds[OF apos] up show False by simp
  qed
  then have qk: "q \<le> k" using k by (simp add: q_def ulp_exp_def)
  have "a / 2 powi q = of_int m * 2 powi (k - q)"
    by (simp add: a_def power_int_diff)
  also have "\<dots> = of_int (m * 2 ^ nat (k - q))"
    using qk by (simp add: power_int_nonneg_exp)
  finally have "round_half_even (a / 2 powi q) = m * 2 ^ nat (k - q)"
    by (simp only: round_half_even_of_int)
  then have "round_to_ulp a = of_int (m * 2 ^ nat (k - q)) * 2 powi q"
    by (simp add: round_to_ulp_def q_def)
  also have "\<dots> = of_int m * (2 powi (k - q) * 2 powi q)"
    using qk by (simp add: power_int_nonneg_exp)
  also have "\<dots> = of_int m * 2 powi k"
    by (simp add: power_int_add[symmetric])
  finally show ?thesis by (simp add: a_def)
qed

lemma round64_exact:
  assumes m: "\<bar>m\<bar> < 2 ^ 53" and k: "- 1074 \<le> k" "k \<le> 971"
  shows "round64 (of_int m * 2 powi k) = Fin (of_int m * 2 powi k)"
proof (cases "m = 0")
  case True
  then show ?thesis by (simp add: round64_def)
next
  case False
  define x :: rat where "x = of_int m * 2 powi k"
  have ax: "\<bar>x\<bar> = of_int \<bar>m\<bar> * 2 powi k"
    by (simp add: x_def abs_mult)
  have r: "round_to_ulp \<bar>x\<bar> = \<bar>x\<bar>"
    unfolding ax using False m k(1) by (intro round_to_ulp_exact) simp_all
  have "\<bar>x\<bar> < of_int (2 ^ 53) * 2 powi k"
    unfolding ax using m by (intro mult_strict_right_mono) (simp_all only: of_int_less_iff, simp)
  also have "\<dots> = 2 powi (53 + k)" by (simp add: power_int_add)
  also have "\<dots> \<le> 2 powi 1024" using k(2) by (intro power_int_increasing) simp_all
  finally have lt: "\<bar>x\<bar> < 2 ^ 1024" by simp
  have nz: "x \<noteq> 0" using False by (simp add: x_def)
  have "sgn x * \<bar>x\<bar> = x" by (simp add: sgn_mult_abs)
  with r lt nz show ?thesis
    by (simp add: round64_def x_def[symmetric])
qed

lemma exact64_dyadic:
  "\<bar>m\<bar> < 2 ^ 53 \<Longrightarrow> - 1074 \<le> k \<Longrightarrow> k \<le> 971 \<Longrightarrow> x = of_int m * 2 powi k \<Longrightarrow> exact64 x"
  by (simp add: exact64_def round64_exact)

lemma exact64_int: "\<bar>i\<bar> < 2 ^ 53 \<Longrightarrow> exact64 (of_int i)"
  using exact64_dyadic[of i 0 "of_int i"] by simp

section \<open>Word and conversion lemmas\<close>

lemma sint_word_of_int_64:
  "- (2 ^ 63) \<le> x \<Longrightarrow> x \<le> 2 ^ 63 - 1 \<Longrightarrow> sint (word_of_int x :: 64 word) = x"
  by (simp add: signed_of_int signed_take_bit_int_eq_self)

lemma sint_64_bounds: "- (2 ^ 63) \<le> sint (d :: 64 word) \<and> sint d \<le> 2 ^ 63 - 1"
  using sint_greater_eq[of d] sint_less[of d] by simp

lemma Sub_ge_iff:
  assumes "0 < sint (lmt :: duration)"
  shows "sint lmt \<le> sint (Sub now start) \<longleftrightarrow> sint lmt \<le> now - start"
proof -
  have b: "sint lmt \<le> 2 ^ 63 - 1" using sint_64_bounds[of lmt] by simp
  consider "now - start < - (2 ^ 63)" | "2 ^ 63 - 1 < now - start"
    | "- (2 ^ 63) \<le> now - start" "now - start \<le> 2 ^ 63 - 1" by linarith
  then show ?thesis
  proof cases
    case 1
    then have "sint (Sub now start) = - (2 ^ 63)"
      by (simp add: Sub_def sint_word_of_int_64)
    then show ?thesis using 1 assms by simp
  next
    case 2
    then have "sint (Sub now start) = 2 ^ 63 - 1"
      by (simp add: Sub_def sint_word_of_int_64)
    then show ?thesis using 2 b by simp
  next
    case 3
    then have "Sub now start = word_of_int (now - start)"
      by (simp add: Sub_def)
    then have "sint (Sub now start) = now - start"
      by (simp only: sint_word_of_int_64[OF 3])
    then show ?thesis by simp
  qed
qed

lemma exact64D: "exact64 x \<Longrightarrow> round64 x = Fin x"
  by (simp add: exact64_def)

lemma trunc_nonneg: "0 \<le> x \<Longrightarrow> trunc x = \<lfloor>x\<rfloor>"
  by (simp add: trunc_def)

lemma duration_of_float64_in_range:
  assumes "0 \<le> x" "x < 2 ^ 63"
  shows "duration_of_float64 R (Fin x) = word_of_int \<lfloor>x\<rfloor>"
    and "sint (word_of_int \<lfloor>x\<rfloor> :: duration) = \<lfloor>x\<rfloor>"
proof -
  have lo: "0 \<le> \<lfloor>x\<rfloor>" using assms(1) by simp
  have "\<lfloor>x\<rfloor> < 2 ^ 63" using assms(2) by (simp add: floor_less_iff)
  then have hi: "\<lfloor>x\<rfloor> \<le> 2 ^ 63 - 1" by simp
  show "duration_of_float64 R (Fin x) = word_of_int \<lfloor>x\<rfloor>"
    using lo hi assms(1) by (simp add: duration_of_float64_def trunc_def)
  show "sint (word_of_int \<lfloor>x\<rfloor> :: duration) = \<lfloor>x\<rfloor>"
    using lo hi by (intro sint_word_of_int_64) simp_all
qed

lemma duration_of_float64_overflow:
  assumes "2 ^ 63 \<le> x"
  shows "duration_of_float64 R (Fin x) = overflow R (Fin x)"
proof -
  have "0 \<le> x" using assms by (rule order_trans[rotated]) simp
  moreover have "2 ^ 63 \<le> \<lfloor>x\<rfloor>" using assms by (simp add: le_floor_iff)
  ultimately show ?thesis by (simp add: duration_of_float64_def trunc_def)
qed

lemma sint_Exit: "sint Exit = - 1"
  by (simp add: Exit_def)

lemma exponential_Delay_eval:
  assumes "exact64 (of_int (sint d))" "exact64 (of_int (n - 1))"
    and "pow R (Fin m) (Fin (of_int (n - 1))) = Fin p"
    and "exact64 (of_int (sint d) * p)"
  shows "Delay R (exponential d (Fin m)) n start w =
           (duration_of_float64 R (Fin (of_int (sint d) * p)), w)"
  using assms by (simp add: float64_of_duration_def float64_of_int_def exact64_def)

section \<open>The loop of the cycler\<close>

lemma notify_eq:
  "notify hs i n d e (w, tr) =
     (foldl (\<lambda>w h. h n d e w) w hs, tr @ map (\<lambda>j. Handler j n d e) [i..<i + length hs])"
proof (induction hs arbitrary: i w tr)
  case Nil
  then show ?case by simp
next
  case (Cons h hs)
  have "[i..<i + length (h # hs)] = i # [Suc i..<Suc i + length hs]"
    by (subst upt_rec) simp
  then show ?case by (simp add: Cons.IH)
qed

lemma iteration_success:
  "attempt n w = (None, w1) \<Longrightarrow>
   iteration R c ctx attempt start n t (w, tr) = (Return None, t, (w1, tr @ [Attempt n None]))"
  by (simp add: iteration_def)

lemma iteration_terminal:
  "attempt n w = (Some (ExitError cause), w1) \<Longrightarrow>
   iteration R c ctx attempt start n t (w, tr) =
     (Return cause, t, (w1, tr @ [Attempt n (Some (ExitError cause))]))"
  by (simp add: iteration_def)

lemma iteration_exit:
  "attempt n w = (Some (Error msg), w1) \<Longrightarrow> Delay R (strategy c) n start w1 = (Exit, w2) \<Longrightarrow>
   iteration R c ctx attempt start n t (w, tr) =
     (Return (case Err ctx w2 of None \<Rightarrow> Some (Error msg) | Some e \<Rightarrow> Some e), t,
      (w2, tr @ [Attempt n (Some (Error msg)), StrategyDelay n start Exit, CtxErr (Err ctx w2)]))"
  by (simp add: iteration_def)

lemma iteration_retry:
  assumes "attempt n w = (Some (Error msg), w1)"
    and "Delay R (strategy c) n start w1 = (d, w2)" and "d \<noteq> Exit"
    and "select_wait R ctx d (foldl (\<lambda>w h. h n d (Error msg) w) w2 (handlers c)) = (sc, w4)"
  shows "iteration R c ctx attempt start n t (w, tr) =
     (if sc = CtxDone then Return (Err ctx w4) else Continue, True,
      (w4, tr @ [Attempt n (Some (Error msg)), StrategyDelay n start d]
              @ map (\<lambda>i. Handler i n d (Error msg)) [0..<length (handlers c)]
              @ [timer_event t d, Select sc]
              @ (if sc = CtxDone then [CtxErr (Err ctx w4)] else [])))"
  using assms by (cases sc) (simp_all add: iteration_def notify_eq)

lemma run_from_head:
  assumes "at_loop_head R c ctx attempt w start n t st"
  shows "0 \<le> n \<and> (\<forall>k. TryWithContext (nat n + k) R c ctx attempt w =
                        deferred (retry_loop k R c ctx attempt start n t st))"
  using assms
proof (induction rule: at_loop_head.induct)
  case (entry start w0)
  then show ?case by (simp add: TryWithContext_def)
next
  case (again start n t st t' st')
  have n: "0 \<le> n" using again.IH by simp
  have "TryWithContext (nat (n + 1) + k) R c ctx attempt w =
        deferred (retry_loop k R c ctx attempt start (n + 1) t' st')" for k
  proof -
    have e: "nat (n + 1) + k = nat n + Suc k" using n by simp
    have i: "TryWithContext (nat n + Suc k) R c ctx attempt w =
          deferred (retry_loop (Suc k) R c ctx attempt start n t st)"
      using again.IH by blast
    have s: "retry_loop (Suc k) R c ctx attempt start n t st =
          retry_loop k R c ctx attempt start (n + 1) t' st'"
      using again.hyps by simp
    show ?thesis by (simp only: e i s)
  qed
  then show ?case using n by simp
qed

lemma iteration_trace_prefix:
  "\<exists>rest. snd (snd (snd (iteration R c ctx attempt start n t (w, tr)))) =
      tr @ Attempt n (fst (attempt n w)) # rest"
proof (cases "attempt n w")
  case (Pair r w1)
  show ?thesis
  proof (cases r)
    case None
    then show ?thesis using Pair by (simp add: iteration_success)
  next
    case (Some e)
    show ?thesis
    proof (cases e)
      case (ExitError cause)
      then show ?thesis using Pair Some by (simp add: iteration_terminal)
    next
      case (Error msg)
      obtain d w2 where D: "Delay R (strategy c) n start w1 = (d, w2)" by (cases "Delay R (strategy c) n start w1")
      show ?thesis
      proof (cases "d = Exit")
        case True
        then show ?thesis using Pair Some Error D by (simp add: iteration_exit)
      next
        case False
        obtain sc w4 where S: "select_wait R ctx d (foldl (\<lambda>w h. h n d (Error msg) w) w2 (handlers c)) = (sc, w4)"
          by (cases "select_wait R ctx d (foldl (\<lambda>w h. h n d (Error msg) w) w2 (handlers c))")
        have A: "attempt n w = (Some (Error msg), w1)" using Pair Some Error by simp
        show ?thesis
          by (simp add: iteration_retry[of attempt n w msg w1 R c start d w2 ctx sc w4 t tr, OF A D False S] A)
      qed
    qed
  qed
qed

lemma retry_loop_trace_prefix:
  "retry_loop fuel R c ctx attempt start n t (w, tr) = Some (err, t', (w', tr')) \<Longrightarrow>
   \<exists>rest. tr' = tr @ Attempt (n + 1) (fst (attempt (n + 1) w)) # rest"
proof (induction fuel arbitrary: n t w tr)
  case 0
  then show ?case by simp
next
  case (Suc fuel)
  obtain out t1 w1 tr1 where I: "iteration R c ctx attempt start (n + 1) t (w, tr) = (out, t1, (w1, tr1))"
    by (metis prod.exhaust)
  obtain rest1 where P: "tr1 = tr @ Attempt (n + 1) (fst (attempt (n + 1) w)) # rest1"
    using iteration_trace_prefix[of R c ctx attempt start "n + 1" t w tr] I by auto
  show ?case
  proof (cases out)
    case (Return e)
    then show ?thesis using Suc.prems I P by auto
  next
    case Continue
    then have "retry_loop fuel R c ctx attempt start (n + 1) t1 (w1, tr1) = Some (err, t', (w', tr'))"
      using Suc.prems I by simp
    from Suc.IH[OF this] obtain rest2 where "tr' = tr1 @ Attempt (n + 1 + 1) (fst (attempt (n + 1 + 1) w1)) # rest2"
      by blast
    then show ?thesis using P by simp
  qed
qed

lemmas fixture_defs =
  observed_cycler_def OnError_def NewCycler_def fixed_clock_def observer_def timer_first_def
  done_first_def amd64_def cancel_ctx_def Background_def always_fails_def exits_at_def
  cancels_at_def succeeds_def ForceExit_def ErrTest_def Canceled_def millisecond_def second_def

lemmas run_defs = iteration_def select_wait_def timer_event_def Exit_def Limit_def

section \<open>Evaluating the float64 strategies\<close>

lemma jitter_value_code: "jitter_value D s r = D - D * s + r * (2 * (D * s) + 1)"
  by (simp add: jitter_value_def algebra_simps)

lemma jitter_value_bounds:
  assumes "0 \<le> D" "0 < s" "0 \<le> r" "r < 1"
  shows "D * (1 - s) \<le> jitter_value D s r" and "jitter_value D s r < D * (1 + s) + 1"
proof -
  have p: "0 < 2 * (D * s) + 1" using assms(1,2) by (simp add: add_nonneg_pos)
  have "0 \<le> r * (2 * (D * s) + 1)" using assms(3) p by simp
  then show "D * (1 - s) \<le> jitter_value D s r"
    by (simp add: jitter_value_code algebra_simps)
  have "r * (2 * (D * s) + 1) < 1 * (2 * (D * s) + 1)"
    using assms(4) p by (intro mult_strict_right_mono)
  then show "jitter_value D s r < D * (1 + s) + 1"
    by (simp add: jitter_value_code algebra_simps)
qed

lemma jitter_Delay_eval:
  assumes inner: "Delay R s n start w = (D, w1)" and ne: "D \<noteq> Exit"
    and rnd: "random w1 = (Fin r, w2)"
    and ex: "jitter_exact (of_int (sint D)) sp r"
  shows "Delay R (jitter s (Fin sp) random) n start w =
           (duration_of_float64 R (Fin (jitter_value (of_int (sint D)) sp r)), w2)"
proof -
  define Dq :: rat where "Dq = of_int (sint D)"
  have e: "exact64 Dq" "exact64 (Dq * sp)" "exact64 (Dq - Dq * sp)" "exact64 (2 * (Dq * sp))"
    "exact64 (2 * (Dq * sp) + 1)" "exact64 (r * (2 * (Dq * sp) + 1))"
    "exact64 (Dq - Dq * sp + r * (2 * (Dq * sp) + 1))"
    using ex by (simp_all add: jitter_exact_def Dq_def)
  have f1: "float64_of_duration D = Fin Dq"
    by (simp only: float64_of_duration_def exact64D[OF e(1)[unfolded Dq_def]] Dq_def)
  have f2: "fmul (Fin Dq) (Fin sp) = Fin (Dq * sp)"
    by (simp only: fmul.simps exact64D[OF e(2)])
  have f3: "fsub (Fin Dq) (Fin (Dq * sp)) = Fin (Dq - Dq * sp)"
    by (simp only: fsub_def fneg.simps fadd.simps add_uminus_conv_diff exact64D[OF e(3)])
  have f4: "fmul (Fin 2) (Fin (Dq * sp)) = Fin (2 * (Dq * sp))"
    by (simp only: fmul.simps exact64D[OF e(4)])
  have f5: "fadd (Fin (2 * (Dq * sp))) (Fin 1) = Fin (2 * (Dq * sp) + 1)"
    by (simp only: fadd.simps exact64D[OF e(5)])
  have f6: "fmul (Fin r) (Fin (2 * (Dq * sp) + 1)) = Fin (r * (2 * (Dq * sp) + 1))"
    by (simp only: fmul.simps exact64D[OF e(6)])
  have f7: "fadd (Fin (Dq - Dq * sp)) (Fin (r * (2 * (Dq * sp) + 1))) =
            Fin (Dq - Dq * sp + r * (2 * (Dq * sp) + 1))"
    by (simp only: fadd.simps exact64D[OF e(7)])
  show ?thesis
    by (simp only: Delay.simps inner rnd prod.case ne if_False f1 f2 f3 f4 f5 f6 f7
          jitter_value_code Dq_def[symmetric])
qed

lemma exponential_Delay_exact:
  assumes "exponential_exact R (sint d) m n"
  shows "Delay R (exponential d (Fin m)) n start w =
           (duration_of_float64 R (Fin (of_int (sint d) * m ^ nat (n - 1))), w)"
  using assms unfolding exponential_exact_def
  by (intro exponential_Delay_eval) blast+

lemma exponential_value_nonneg:
  "0 \<le> sint d \<Longrightarrow> 0 \<le> m \<Longrightarrow> (0::rat) \<le> of_int (sint d) * m ^ nat (n - 1)"
  by (intro mult_nonneg_nonneg zero_le_power) (simp_all only: of_int_0_le_iff)

lemma round64_examples:
  "round64 0 = Fin 0" "round64 1 = Fin 1" "round64 2 = Fin 2" "round64 3 = Fin 3"
  "round64 4 = Fin 4" "round64 8 = Fin 8" "round64 33 = Fin 33" "round64 34 = Fin 34"
  "round64 (3 / 2) = Fin (3 / 2)" "round64 (9 / 4) = Fin (9 / 4)" "round64 (9 / 2) = Fin (9 / 2)"
  "round64 (27 / 4) = Fin (27 / 4)"
  "round64 1000000000 = Fin 1000000000"
  "round64 250000000 = Fin 250000000" "round64 750000000 = Fin 750000000"
  "round64 500000000 = Fin 500000000" "round64 500000001 = Fin 500000001"
  "round64 (500000001 / 4) = Fin (500000001 / 4)"
  "round64 (3500000001 / 4) = Fin (3500000001 / 4)"
  "round64 8589934592 = Fin 8589934592" "round64 17179869184 = Fin 17179869184"
  "round64 8589934592000000000 = Fin 8589934592000000000"
  "round64 17179869184000000000 = Fin 17179869184000000000"
  using round64_exact[of 0 0] round64_exact[of 1 0] round64_exact[of 2 0] round64_exact[of 3 0]
    round64_exact[of 4 0] round64_exact[of 8 0] round64_exact[of 33 0] round64_exact[of 34 0]
    round64_exact[of 3 "- 1"] round64_exact[of 9 "- 2"] round64_exact[of 9 "- 1"]
    round64_exact[of 27 "- 2"]
    round64_exact[of 1000000000 0] round64_exact[of 250000000 0] round64_exact[of 750000000 0]
    round64_exact[of 500000000 0] round64_exact[of 500000001 0]
    round64_exact[of 500000001 "- 2"] round64_exact[of 3500000001 "- 2"]
    round64_exact[of 1 33] round64_exact[of 1 34]
    round64_exact[of 1953125 42] round64_exact[of 1953125 43]
  by simp_all

lemma floor_examples:
  "\<lfloor>(3::rat) / 2\<rfloor> = 1" "\<lfloor>(9::rat) / 2\<rfloor> = 4" "\<lfloor>(27::rat) / 4\<rfloor> = 6"
  "\<lfloor>(3500000001::rat) / 4\<rfloor> = 875000000"
  by (simp_all add: floor_eq_iff)

lemmas float_eval =
  float64_of_duration_def float64_of_int_def fsub_def duration_of_float64_def trunc_def
  math_Pow_def amd64_def fixed_random_def second_def Exit_def round64_examples floor_examples

lemma sint_second: "sint second = 1000000000"
  by (simp add: second_def)

section \<open>Rounding errors\<close>

lemma round_half_even_error: "\<bar>of_int (round_half_even s) - s\<bar> \<le> 1 / 2"
proof -
  have "of_int \<lfloor>s\<rfloor> \<le> s" "s < of_int \<lfloor>s\<rfloor> + 1"
    using floor_correct[of s] by simp_all
  then show ?thesis
    by (auto simp: round_half_even_def abs_le_iff)
qed

lemma ulp_exp_le:
  assumes "0 < a" "a < 2 powi K" "- 1021 \<le> K"
  shows "ulp_exp a \<le> K - 53"
proof -
  have "ilog2 a < K"
  proof (rule ccontr)
    assume "\<not> ilog2 a < K"
    then have "(2::rat) powi K \<le> 2 powi ilog2 a"
      by (intro power_int_increasing) simp_all
    with ilog2_bounds[OF assms(1)] assms(2) show False by simp
  qed
  then show ?thesis using assms(3) by (simp add: ulp_exp_def)
qed

lemma round_to_ulp_error:
  assumes "0 < a"
  shows "\<bar>round_to_ulp a - a\<bar> \<le> 2 powi ulp_exp a / 2"
proof -
  define q where "q = ulp_exp a"
  have p: "(0::rat) < 2 powi q" by (simp add: power_int_def)
  have "round_to_ulp a - a = (of_int (round_half_even (a / 2 powi q)) - a / 2 powi q) * 2 powi q"
    using p by (simp add: round_to_ulp_def q_def algebra_simps)
  then have "\<bar>round_to_ulp a - a\<bar> = \<bar>of_int (round_half_even (a / 2 powi q)) - a / 2 powi q\<bar> * 2 powi q"
    using p by (simp add: abs_mult)
  also have "\<dots> \<le> 1 / 2 * 2 powi q"
    using p round_half_even_error[of "a / 2 powi q"] by (intro mult_right_mono) simp_all
  finally show ?thesis by (simp add: q_def)
qed

lemma round64_error:
  assumes x: "\<bar>x\<bar> < 2 powi K" and K: "- 1021 \<le> K" "K \<le> 1023"
  obtains y where "round64 x = Fin y" "\<bar>y - x\<bar> \<le> 2 powi (K - 54)"
proof (cases "x = 0")
  case True
  have "(0::rat) \<le> 2 powi (K - 54)" by (simp add: power_int_def)
  then show ?thesis using that[of 0] True by (simp add: round64_def)
next
  case False
  define a where "a = \<bar>x\<bar>"
  define r where "r = round_to_ulp a"
  have a0: "0 < a" using False by (simp add: a_def)
  have q: "ulp_exp a \<le> K - 53" using ulp_exp_le[OF a0 _ K(1)] x by (simp add: a_def)
  have "(2::rat) powi ulp_exp a / 2 = 2 powi (ulp_exp a - 1)"
    by (simp add: power_int_diff)
  also have "\<dots> \<le> 2 powi (K - 54)" using q by (intro power_int_increasing) simp_all
  finally have e: "\<bar>r - a\<bar> \<le> 2 powi (K - 54)"
    using round_to_ulp_error[OF a0] by (simp add: r_def)
  have "(2::rat) powi (K - 54) \<le> 2 powi K" by (intro power_int_increasing) simp_all
  then have "r < 2 powi K + 2 powi K" using e x by (simp add: a_def abs_le_iff)
  also have "\<dots> = 2 powi (K + 1)" by (simp add: power_int_add)
  also have "\<dots> \<le> 2 powi 1024" using K(2) by (intro power_int_increasing) simp_all
  finally have lt: "\<not> 2 ^ 1024 \<le> r" by simp
  have "x = sgn x * a" by (simp add: a_def sgn_mult_abs)
  then have "sgn x * r - x = sgn x * (r - a)" by (simp add: algebra_simps)
  then have "\<bar>sgn x * r - x\<bar> = \<bar>sgn x * (r - a)\<bar>" by simp
  also have "\<dots> = \<bar>r - a\<bar>" using False by (simp add: abs_mult abs_sgn_eq)
  finally have "\<bar>sgn x * r - x\<bar> \<le> 2 powi (K - 54)" using e by simp
  moreover have "round64 x = Fin (sgn x * r)"
    using False lt by (simp add: round64_def r_def a_def)
  ultimately show ?thesis using that by blast
qed

lemma trunc_bounds: "of_int (trunc x) \<le> max x 0" "x - 1 < of_int (trunc x)"
proof -
  have f: "of_int \<lfloor>x\<rfloor> \<le> x" "x - 1 < of_int \<lfloor>x\<rfloor>" using floor_correct[of x] by simp_all
  have c: "x \<le> of_int \<lceil>x\<rceil>" by (rule le_of_int_ceiling)
  have c0: "x < 0 \<Longrightarrow> (of_int \<lceil>x\<rceil> :: rat) \<le> 0"
    by (simp add: ceiling_le_iff)
  show "of_int (trunc x) \<le> max x 0" using f(1) c0 by (auto simp: trunc_def max_def)
  show "x - 1 < of_int (trunc x)"
  proof (cases "0 \<le> x")
    case True
    then show ?thesis using f(2) by (simp add: trunc_def)
  next
    case False
    have "x - 1 < of_int \<lceil>x\<rceil>" using c by linarith
    then show ?thesis using False by (simp add: trunc_def)
  qed
qed

lemma duration_of_float64_trunc:
  assumes "- (2 ^ 63) < x" "x < 2 ^ 63"
  shows "duration_of_float64 R (Fin x) = word_of_int (trunc x)"
    and "sint (word_of_int (trunc x) :: duration) = trunc x"
proof -
  have lo: "- (2 ^ 63) \<le> trunc x"
    using assms by (auto simp: trunc_def le_floor_iff le_ceiling_iff)
  have "trunc x < 2 ^ 63"
    using assms by (auto simp: trunc_def floor_less_iff ceiling_less_iff)
  then have hi: "trunc x \<le> 2 ^ 63 - 1" by simp
  show "duration_of_float64 R (Fin x) = word_of_int (trunc x)"
    using lo hi by (simp add: duration_of_float64_def)
  show "sint (word_of_int (trunc x) :: duration) = trunc x"
    using lo hi by (intro sint_word_of_int_64) simp_all
qed

lemma scaled_bounds: "0 \<le> r \<Longrightarrow> r < 1 \<Longrightarrow> - \<bar>z\<bar> \<le> r * z \<and> r * z \<le> \<bar>z\<bar>" for r z :: rat
proof -
  assume "0 \<le> r" "r < 1"
  then have "\<bar>r * z\<bar> = r * \<bar>z\<bar>" by (simp add: abs_mult)
  also have "\<dots> \<le> 1 * \<bar>z\<bar>" using \<open>r < 1\<close> by (intro mult_right_mono) simp_all
  finally show ?thesis by (simp add: abs_le_iff)
qed

lemma round64_near:
  assumes "- (2 ^ k) < x" "x < 2 ^ k" "k \<le> 1023"
  obtains y where "round64 x = Fin y" "x - 2 ^ k / 2 ^ 54 \<le> y" "y \<le> x + 2 ^ k / 2 ^ 54"
proof -
  have "\<bar>x\<bar> < 2 powi int k" using assms(1,2) by (simp add: abs_less_iff)
  from round64_error[OF this] assms(3) obtain y where
    y: "round64 x = Fin y" "\<bar>y - x\<bar> \<le> 2 powi (int k - 54)" by auto
  have "(2::rat) powi (int k - 54) = 2 ^ k / 2 ^ 54"
    by (simp add: power_int_diff)
  then show ?thesis using y that[of y] by (simp add: abs_le_iff)
qed

lemma jitter_Delay_rounded:
  assumes inner: "Delay R s n start w = (D, w1)" and ne: "D \<noteq> Exit"
    and D: "0 \<le> sint D" "sint D < 2 ^ 48"
    and sp: "0 < sp" "sp < 1"
    and rnd: "random w1 = (Fin r, w2)" and r: "0 \<le> r" "r < 1"
  obtains S where
    "Delay R (jitter s (Fin sp) random) n start w = (duration_of_float64 R (Fin S), w2)"
    "\<bar>S - jitter_value (of_int (sint D)) sp r\<bar> \<le> 1 / 2"
    "- (2 ^ 63) < S" "S < 2 ^ 63"
proof -
  define Dq :: rat where "Dq = of_int (sint D)"
  have P: "(2::rat) ^ 48 = 281474976710656" "(2::rat) ^ 50 = 1125899906842624"
    "(2::rat) ^ 51 = 2251799813685248" "(2::rat) ^ 63 = 9223372036854775808"
    "(2::rat) ^ 48 / 2 ^ 54 = 1 / 64" "(2::rat) ^ 50 / 2 ^ 54 = 1 / 16" "(2::rat) ^ 51 / 2 ^ 54 = 1 / 8"
    by simp_all
  have "(0::rat) \<le> of_int (sint D)" "(of_int (sint D) :: rat) < of_int (2 ^ 48)"
    using D by (simp_all only: of_int_0_le_iff of_int_less_iff)
  then have Dq: "0 \<le> Dq" "Dq < 281474976710656"
    by (simp_all add: Dq_def del: of_int_sint)
  have "\<bar>sint D\<bar> < 2 ^ 53" using D by simp
  then have f0: "float64_of_duration D = Fin Dq"
    using exact64_int[of "sint D"] by (simp only: float64_of_duration_def exact64_def Dq_def)
  have x1: "0 \<le> Dq * sp" "Dq * sp \<le> Dq"
    using Dq(1) sp by (simp_all add: mult_left_le)
  have "- (2 ^ 48) < Dq * sp" "Dq * sp < 2 ^ 48" unfolding P using x1 Dq by linarith+
  from round64_near[OF this] obtain wd where
    wd: "round64 (Dq * sp) = Fin wd" "Dq * sp - 1 / 64 \<le> wd" "wd \<le> Dq * sp + 1 / 64"
    unfolding P by auto
  have "- (2 ^ 50) < Dq - wd" "Dq - wd < 2 ^ 50" unfolding P using wd(2,3) x1 Dq by linarith+
  from round64_near[OF this] obtain lo where
    lo: "round64 (Dq - wd) = Fin lo" "Dq - wd - 1 / 16 \<le> lo" "lo \<le> Dq - wd + 1 / 16"
    unfolding P by auto
  have "- (2 ^ 50) < 2 * wd" "2 * wd < 2 ^ 50" unfolding P using wd(2,3) x1 Dq by linarith+
  from round64_near[OF this] obtain t where
    t: "round64 (2 * wd) = Fin t" "2 * wd - 1 / 16 \<le> t" "t \<le> 2 * wd + 1 / 16"
    unfolding P by auto
  have "- (2 ^ 50) < t + 1" "t + 1 < 2 ^ 50" unfolding P using t(2,3) wd(2,3) x1 Dq by linarith+
  from round64_near[OF this] obtain c where
    c: "round64 (t + 1) = Fin c" "t + 1 - 1 / 16 \<le> c" "c \<le> t + 1 + 1 / 16"
    unfolding P by auto
  have cb: "\<bar>c\<bar> < 562949953421320"
    using c(2,3) t(2,3) wd(2,3) x1 Dq by (simp only: abs_less_iff) linarith
  have rc: "- \<bar>c\<bar> \<le> r * c" "r * c \<le> \<bar>c\<bar>" using scaled_bounds[OF r, of c] by simp_all
  have "- (2 ^ 50) < r * c" "r * c < 2 ^ 50" unfolding P using rc cb by linarith+
  from round64_near[OF this] obtain p where
    p: "round64 (r * c) = Fin p" "r * c - 1 / 16 \<le> p" "p \<le> r * c + 1 / 16"
    unfolding P by auto
  have "- (2 ^ 51) < lo + p" "lo + p < 2 ^ 51"
    unfolding P using lo(2,3) p(2,3) rc cb wd(2,3) x1 Dq by linarith+
  from round64_near[OF this] obtain S where
    S: "round64 (lo + p) = Fin S" "lo + p - 1 / 8 \<le> S" "S \<le> lo + p + 1 / 8"
    unfolding P by auto
  have ev: "Delay R (jitter s (Fin sp) random) n start w = (duration_of_float64 R (Fin S), w2)"
    by (simp only: Delay.simps inner rnd prod.case ne if_False f0 fmul.simps fadd.simps fsub_def
          fneg.simps add_uminus_conv_diff wd(1) lo(1) t(1) c(1) p(1) S(1))
  define e1 e2 e3 e4 e5 e6 where "e1 = wd - Dq * sp" and "e2 = lo - (Dq - wd)"
    and "e3 = t - 2 * wd" and "e4 = c - (t + 1)" and "e5 = p - r * c" and "e6 = S - (lo + p)"
  have id: "S - jitter_value Dq sp r = - e1 + e2 + r * (2 * e1 + e3 + e4) + e5 + e6"
    by (simp add: jitter_value_def e1_def e2_def e3_def e4_def e5_def e6_def algebra_simps)
  have rz: "- \<bar>2 * e1 + e3 + e4\<bar> \<le> r * (2 * e1 + e3 + e4)" "r * (2 * e1 + e3 + e4) \<le> \<bar>2 * e1 + e3 + e4\<bar>"
    using scaled_bounds[OF r, of "2 * e1 + e3 + e4"] by simp_all
  have eb: "- (1 / 64) \<le> e1" "e1 \<le> 1 / 64" "- (1 / 16) \<le> e2" "e2 \<le> 1 / 16"
    "- (1 / 16) \<le> e3" "e3 \<le> 1 / 16" "- (1 / 16) \<le> e4" "e4 \<le> 1 / 16"
    "- (1 / 16) \<le> e5" "e5 \<le> 1 / 16" "- (1 / 8) \<le> e6" "e6 \<le> 1 / 8"
    unfolding e1_def e2_def e3_def e4_def e5_def e6_def
    using wd(2,3) lo(2,3) t(2,3) c(2,3) p(2,3) S(2,3) by linarith+
  have err: "\<bar>S - jitter_value Dq sp r\<bar> \<le> 1 / 2"
    unfolding id abs_le_iff using rz eb by linarith
  have rng: "- (2 ^ 63) < S" "S < 2 ^ 63"
    unfolding P using S(2,3) lo(2,3) p(2,3) rc cb wd(2,3) x1 Dq by linarith+
  show ?thesis using that[of S] ev err rng by (simp only: Dq_def)
qed

lemma jitter_Delay_near_window:
  assumes inner: "Delay R s n start w = (D, w1)" and ne: "D \<noteq> Exit"
    and D: "0 \<le> sint D" "sint D < 2 ^ 48"
    and sp: "0 < sp" "sp < 1"
    and rnd: "random w1 = (Fin r, w2)" and r: "0 \<le> r" "r < 1"
  shows "snd (Delay R (jitter s (Fin sp) random) n start w) = w2"
    and "of_int (sint D) * (1 - sp) - 3 / 2 <
           of_int (sint (fst (Delay R (jitter s (Fin sp) random) n start w)))"
    and "of_int (sint (fst (Delay R (jitter s (Fin sp) random) n start w))) <
           of_int (sint D) * (1 + sp) + 3 / 2"
proof -
  define Dq :: rat where "Dq = of_int (sint D)"
  define jv where "jv = jitter_value Dq sp r"
  from jitter_Delay_rounded[where random = random, OF inner ne D sp rnd r] obtain S where
    ev: "Delay R (jitter s (Fin sp) random) n start w = (duration_of_float64 R (Fin S), w2)"
    and err: "\<bar>S - jv\<bar> \<le> 1 / 2" and rng: "- (2 ^ 63) < S" "S < 2 ^ 63"
    unfolding jv_def Dq_def by blast
  have D0: "0 \<le> Dq" using D(1) unfolding Dq_def by (simp only: of_int_0_le_iff)
  have w: "Dq * (1 - sp) \<le> jv" "jv < Dq * (1 + sp) + 1"
    unfolding jv_def by (rule jitter_value_bounds[OF D0 sp(1) r])+
  have h0: "0 \<le> Dq * (1 + sp)" using D0 sp by (intro mult_nonneg_nonneg) simp_all
  have sv: "sint (fst (Delay R (jitter s (Fin sp) random) n start w)) = trunc S"
    by (simp only: ev fst_conv duration_of_float64_trunc[OF rng])
  have tb: "of_int (trunc S) \<le> max S 0" "S - 1 < of_int (trunc S)"
    by (rule trunc_bounds)+
  have e: "jv - 1 / 2 \<le> S" "S \<le> jv + 1 / 2" using err by (simp_all only: abs_le_iff) linarith+
  show "snd (Delay R (jitter s (Fin sp) random) n start w) = w2"
    by (simp only: ev snd_conv)
  show "of_int (sint D) * (1 - sp) - 3 / 2 <
           of_int (sint (fst (Delay R (jitter s (Fin sp) random) n start w)))"
    unfolding sv Dq_def[symmetric] using tb(2) e(1) w(1) by linarith
  show "of_int (sint (fst (Delay R (jitter s (Fin sp) random) n start w))) <
           of_int (sint D) * (1 + sp) + 3 / 2"
    unfolding sv Dq_def[symmetric] using tb(1) e(2) w(2) h0 by (simp only: max_def split: if_splits)
qed

lemma exponential_Delay_near:
  assumes d: "0 \<le> sint d" "sint d < 2 ^ 53" and m: "0 \<le> m" and n: "1 \<le> n" "n \<le> 2 ^ 53"
    and pw: "pow R (Fin m) (Fin (of_int (n - 1))) = Fin (m ^ nat (n - 1))"
    and x: "of_int (sint d) * m ^ nat (n - 1) < 2 ^ 53"
  shows "of_int (sint d) * m ^ nat (n - 1) - 3 / 2 <
           of_int (sint (fst (Delay R (exponential d (Fin m)) n start w)))"
    and "of_int (sint (fst (Delay R (exponential d (Fin m)) n start w))) \<le>
           of_int (sint d) * m ^ nat (n - 1) + 1 / 2"
proof -
  define xq :: rat where "xq = of_int (sint d) * m ^ nat (n - 1)"
  have x0: "0 \<le> xq" unfolding xq_def by (rule exponential_value_nonneg[OF d(1) m])
  have "\<bar>sint d\<bar> < 2 ^ 53" using d by simp
  then have f0: "float64_of_duration d = Fin (of_int (sint d))"
    using exact64_int[of "sint d"] by (simp only: float64_of_duration_def exact64_def)
  have "\<bar>n - 1\<bar> < 2 ^ 53" using n by simp
  then have f1: "float64_of_int (n - 1) = Fin (of_int (n - 1))"
    using exact64_int[of "n - 1"] by (simp only: float64_of_int_def exact64_def)
  have "- (2 ^ 53) < xq" "xq < 2 ^ 53" using x0 x unfolding xq_def by simp_all
  from round64_near[OF this] obtain y where
    y: "round64 xq = Fin y" "xq - 1 / 2 \<le> y" "y \<le> xq + 1 / 2"
    by auto
  have ev: "Delay R (exponential d (Fin m)) n start w = (duration_of_float64 R (Fin y), w)"
    by (simp only: Delay.simps f0 f1 pw fmul.simps xq_def[symmetric] y(1))
  have P: "(2::rat) ^ 53 = 9007199254740992" "(2::rat) ^ 63 = 9223372036854775808" by simp_all
  have rng: "- (2 ^ 63) < y" "y < 2 ^ 63"
    using y(2,3) x0 x unfolding xq_def[symmetric] P by linarith+
  have sv: "sint (fst (Delay R (exponential d (Fin m)) n start w)) = trunc y"
    by (simp only: ev fst_conv duration_of_float64_trunc[OF rng])
  have tb: "of_int (trunc y) \<le> max y 0" "y - 1 < of_int (trunc y)"
    by (rule trunc_bounds)+
  show "of_int (sint d) * m ^ nat (n - 1) - 3 / 2 <
           of_int (sint (fst (Delay R (exponential d (Fin m)) n start w)))"
    unfolding sv xq_def[symmetric] using tb(2) y(2) by linarith
  show "of_int (sint (fst (Delay R (exponential d (Fin m)) n start w))) \<le>
           of_int (sint d) * m ^ nat (n - 1) + 1 / 2"
    unfolding sv xq_def[symmetric] using tb(1) y(3) x0 by (simp only: max_def split: if_splits)
qed

lemma jitter_Delay_exact_window:
  assumes inner: "Delay R s n start w = (D, w1)" and ne: "D \<noteq> Exit"
    and d0: "0 \<le> sint D" and sp: "0 < sp" "sp < 1"
    and rnd: "random w1 = (Fin r, w2)" and r: "0 \<le> r" "r < 1"
    and ex: "jitter_exact (of_int (sint D)) sp r"
    and rng: "jitter_value (of_int (sint D)) sp r < 2 ^ 63"
  shows "Delay R (jitter s (Fin sp) random) n start w =
          (word_of_int \<lfloor>jitter_value (of_int (sint D)) sp r\<rfloor>, w2)"
    and "of_int (sint D) * (1 - sp) \<le> jitter_value (of_int (sint D)) sp r"
    and "jitter_value (of_int (sint D)) sp r < of_int (sint D) * (1 + sp) + 1"
    and "of_int (sint D) * (1 - sp) - 1 < of_int (sint (fst (Delay R (jitter s (Fin sp) random) n start w)))"
    and "of_int (sint (fst (Delay R (jitter s (Fin sp) random) n start w))) < of_int (sint D) * (1 + sp) + 1"
proof -
  define x where "x = jitter_value (of_int (sint D)) sp r"
  have D0: "(0::rat) \<le> of_int (sint D)" using d0 by (simp only: of_int_0_le_iff)
  have lo: "of_int (sint D) * (1 - sp) \<le> x" and hi: "x < of_int (sint D) * (1 + sp) + 1"
    unfolding x_def by (rule jitter_value_bounds[OF D0 sp(1) r])+
  have "0 \<le> of_int (sint D) * (1 - sp)" using D0 sp(2) by (intro mult_nonneg_nonneg) simp_all
  then have x0: "0 \<le> x" using lo by simp
  have x63: "x < 2 ^ 63" using rng by (simp only: x_def)
  have ev: "Delay R (jitter s (Fin sp) random) n start w = (word_of_int \<lfloor>x\<rfloor>, w2)"
    unfolding jitter_Delay_eval[where random = random, OF inner ne rnd ex] x_def[symmetric]
    by (simp only: duration_of_float64_in_range(1)[OF x0 x63])
  have sv: "sint (fst (Delay R (jitter s (Fin sp) random) n start w)) = \<lfloor>x\<rfloor>"
    by (simp only: ev fst_conv duration_of_float64_in_range(2)[OF x0 x63])
  show "Delay R (jitter s (Fin sp) random) n start w =
          (word_of_int \<lfloor>jitter_value (of_int (sint D)) sp r\<rfloor>, w2)"
    using ev by (simp only: x_def)
  show "of_int (sint D) * (1 - sp) \<le> jitter_value (of_int (sint D)) sp r"
    using lo by (simp only: x_def)
  show "jitter_value (of_int (sint D)) sp r < of_int (sint D) * (1 + sp) + 1"
    using hi by (simp only: x_def)
  have fl: "x - 1 < of_int \<lfloor>x\<rfloor>" "of_int \<lfloor>x\<rfloor> \<le> x"
    using floor_correct[of x] by simp_all
  show "of_int (sint D) * (1 - sp) - 1 < of_int (sint (fst (Delay R (jitter s (Fin sp) random) n start w)))"
    unfolding sv using lo fl(1) by linarith
  show "of_int (sint (fst (Delay R (jitter s (Fin sp) random) n start w))) < of_int (sint D) * (1 + sp) + 1"
    unfolding sv using hi fl(2) by linarith
qed

lemma exponential_Delay_exact_value:
  assumes d: "0 \<le> sint d" and m: "0 \<le> m"
    and ex: "exponential_exact R (sint d) m n"
    and rng: "of_int (sint d) * m ^ nat (n - 1) < 2 ^ 63"
  shows "Delay R (exponential d (Fin m)) n start w =
        (word_of_int \<lfloor>of_int (sint d) * m ^ nat (n - 1)\<rfloor>, w)"
    and "sint (fst (Delay R (exponential d (Fin m)) n start w)) = \<lfloor>of_int (sint d) * m ^ nat (n - 1)\<rfloor>"
proof -
  define x :: rat where "x = of_int (sint d) * m ^ nat (n - 1)"
  have x0: "0 \<le> x" unfolding x_def by (rule exponential_value_nonneg[OF d m])
  have x63: "x < 2 ^ 63" using rng by (simp only: x_def)
  show ev: "Delay R (exponential d (Fin m)) n start w =
        (word_of_int \<lfloor>of_int (sint d) * m ^ nat (n - 1)\<rfloor>, w)"
    unfolding exponential_Delay_exact[OF ex] x_def[symmetric]
    by (simp only: duration_of_float64_in_range(1)[OF x0 x63])
  show "sint (fst (Delay R (exponential d (Fin m)) n start w)) = \<lfloor>of_int (sint d) * m ^ nat (n - 1)\<rfloor>"
    unfolding ev fst_conv using duration_of_float64_in_range(2)[OF x0 x63] by (simp only: x_def)
qed

lemma exponential_scenario:
  assumes p: "pow R (Fin 2) (Fin 0) = Fin 1" "pow R (Fin 2) (Fin 1) = Fin 2"
    "pow R (Fin 2) (Fin 2) = Fin 4" "pow R (Fin 2) (Fin 3) = Fin 8"
  shows "map (\<lambda>n. fst (Delay R (exponential second (Fin 2)) n start w)) [1, 2, 3, 4] =
        [second, 2 * second, 4 * second, 8 * second]"
proof -
  have s: "sint second = 1000000000" by (simp add: second_def)
  have e: "round64 0 = Fin 0" "round64 1 = Fin 1" "round64 2 = Fin 2" "round64 3 = Fin 3"
    "round64 1000000000 = Fin 1000000000" "round64 2000000000 = Fin 2000000000"
    "round64 4000000000 = Fin 4000000000" "round64 8000000000 = Fin 8000000000"
    using exact64_int[of 0] exact64_int[of 1] exact64_int[of 2] exact64_int[of 3]
      exact64_int[of 1000000000] exact64_int[of 2000000000] exact64_int[of 4000000000]
      exact64_int[of 8000000000]
    by (simp_all add: exact64_def)
  show ?thesis
    using p by (simp add: float64_of_duration_def float64_of_int_def s e duration_of_float64_def
        trunc_def second_def del: of_int_sint)
qed

section \<open>The repository's tests on the model\<close>

text \<open>
  The tests of the repository, run on the model: the strategies return what the tests
  expect (\<^verbatim>\<open>TestCap\<close> runs on the cap modelled from the spec), and a cycle that fails
  twice succeeds at the third attempt.
\<close>

lemma round64_test_values:
  "round64 (1 / 2) = Fin (1 / 2)" "round64 (1 / 4) = Fin (1 / 4)" "round64 (1 / 8) = Fin (1 / 8)"
  "round64 8000000000 = Fin 8000000000" "round64 4000000000 = Fin 4000000000"
  "round64 2000000000 = Fin 2000000000"
  "round64 1500000000 = Fin 1500000000" "round64 1500000001 = Fin 1500000001"
  "round64 (4500000003 / 4) = Fin (4500000003 / 4)"
  "round64 (5500000003 / 4) = Fin (5500000003 / 4)"
  "round64 1000000001 = Fin 1000000001" "round64 (1000000001 / 2) = Fin (1000000001 / 2)"
  "round64 (2000000001 / 2) = Fin (2000000001 / 2)"
  using round64_exact[of 1 "- 1"] round64_exact[of 1 "- 2"] round64_exact[of 1 "- 3"]
    round64_exact[of 8000000000 0] round64_exact[of 4000000000 0] round64_exact[of 2000000000 0]
    round64_exact[of 1500000000 0] round64_exact[of 1500000001 0]
    round64_exact[of 4500000003 "- 2"] round64_exact[of 5500000003 "- 2"]
    round64_exact[of 1000000001 0] round64_exact[of 1000000001 "- 1"]
    round64_exact[of 2000000001 "- 1"]
  by simp_all

lemma floor_test_values:
  "\<lfloor>(5500000003::rat) / 4\<rfloor> = 1375000000" "\<lfloor>(2000000001::rat) / 2\<rfloor> = 1000000000"
  by (simp_all add: floor_eq_iff)

lemma TestJitterLarge:
  "Jitter (constant_delay second) (Fin (3 / 4)) (fixed_random (Fin (3 / 4))) =
     Inr (jitter (constant_delay second) (Fin (3 / 4)) (fixed_random (Fin (3 / 4)))) \<and>
   Delay (amd64 timer_first) (jitter (constant_delay second) (Fin (3 / 4)) (fixed_random (Fin (3 / 4)))) 1 0 () =
     (1375000000, ())"
  by (simp add: Jitter_def feq_def fge_def float_eval round64_test_values floor_test_values
      del: of_int_sint)

lemma TestJitterMean:
  "Delay (amd64 timer_first) (jitter (constant_delay second) (Fin (1 / 2)) (fixed_random (Fin (1 / 2)))) 1 0 () =
     (second, ())"
  by (simp add: float_eval round64_test_values floor_test_values del: of_int_sint)

lemma TestExponentialDecrease:
  "Exponential (8 * second) (Fin (1 / 2)) = Inr (exponential (8 * second) (Fin (1 / 2))) \<and>
   map (\<lambda>n. fst (Delay (amd64 timer_first) (exponential (8 * second) (Fin (1 / 2))) n 0 ())) [1, 2, 3, 4] =
     [8 * second, 4 * second, 2 * second, second]"
  by (simp add: Exponential_def feq_def float_eval round64_test_values power_divide
      del: of_int_sint)

lemma TestLinearPositive:
  "Linear second (2 * second) = Inr (linear second (2 * second)) \<and>
   map (\<lambda>n. fst (Delay (amd64 timer_first) (linear second (2 * second)) n 0 ())) [1, 2, 3, 4] =
     [second, 3 * second, 5 * second, 7 * second]"
  by (simp add: Linear_def second_def)

lemma TestLinearNegative:
  "Linear (2 * second) (- second) = Inr (linear (2 * second) (- second)) \<and>
   map (\<lambda>n. fst (Delay (amd64 timer_first) (linear (2 * second) (- second)) n 0 ())) [1, 2, 3, 4] =
     [2 * second, second, 0, 0]"
  by (simp add: Linear_def second_def)

lemma TestTimeout:
  "Delay (amd64 timer_first) (Timeout (constant_delay second) (2 * second) (fixed_clock 1000000000)) 1 0 () =
     (second, ()) \<and>
   Delay (amd64 timer_first) (Timeout (constant_delay second) second (fixed_clock 2000000000)) 1 0 () =
     (Exit, ()) \<and>
   Delay (amd64 timer_first) (Timeout (constant_delay second) 0 (fixed_clock 0)) 1 0 () = (second, ())"
  by (simp add: Timeout_def Sub_def fixed_clock_def second_def)

lemma TestCap:
  "Delay (amd64 timer_first) (Cap (constant_delay second) (2 * second)) 1 0 () = (second, ()) \<and>
   Delay (amd64 timer_first) (Cap (constant_delay (2 * second)) second) 1 0 () = (second, ()) \<and>
   Delay (amd64 timer_first) (Cap (constant_delay second) 0) 1 0 () = (second, ())"
  by (simp add: Cap_def cap_Delay_def second_def)

lemma TestCycler_Try:
  "Try 3 (amd64 timer_first) (NewCycler (fixed_clock 0) (constant_delay millisecond))
     (\<lambda>n w. (if n < 3 then Some ErrTest else None, w)) () =
   Some (None,
     ((), [ClockTime 0,
           Attempt 1 (Some ErrTest), StrategyDelay 1 0 millisecond, NewTimer millisecond, Select TimerFired,
           Attempt 2 (Some ErrTest), StrategyDelay 2 0 millisecond, TimerReset millisecond, Select TimerFired,
           Attempt 3 None, TimerStop]))"
  by (simp add: Try_def TryWithContext_def deferred_def numeral_3_eq_3 run_defs fixture_defs)

section \<open>The claims about the retry cycle\<close>

text \<open>
  Claim C1. Take any retry cycle of \<^verbatim>\<open>TryWithContext\<close> that has reached a loop head after
  \<open>n\<close> attempts. If attempt \<open>n + 1\<close> fails with an ordinary error and the strategy
  answers \<open>Exit\<close> for it, the cycle returns at once (any fuel beyond the \<open>n\<close> passes
  made is enough): it returns \<^verbatim>\<open>ctx.Err()\<close> when that is not nil at that moment, and the
  error of the attempt otherwise. After the strategy's answer the trace holds the call
  of \<^verbatim>\<open>ctx.Err()\<close> and the deferred stop of the timer, no handler and no wait.
\<close>

theorem TryWithContext_exit:
  assumes "at_loop_head R c ctx attempt w start n t (w', tr)"
    and "attempt (n + 1) w' = (Some (Error msg), w1)"
    and "Delay R (strategy c) (n + 1) start w1 = (Exit, w2)"
  shows "TryWithContext (nat n + Suc k) R c ctx attempt w =
     Some (case Err ctx w2 of None \<Rightarrow> Some (Error msg) | Some e \<Rightarrow> Some e,
           (w2, tr @ [Attempt (n + 1) (Some (Error msg)), StrategyDelay (n + 1) start Exit,
                      CtxErr (Err ctx w2)] @ (if t then [TimerStop] else [])))"
proof -
  have "TryWithContext (nat n + Suc k) R c ctx attempt w =
        deferred (retry_loop (Suc k) R c ctx attempt start n t (w', tr))"
    using run_from_head[OF assms(1)] by blast
  then show ?thesis using assms(2,3)
    by (simp add: iteration_exit deferred_def)
qed

theorem TryWithContext_exit_witness:
  "TryWithContext 2 (amd64 timer_first) (observed_cycler (Limit (constant_delay millisecond) 2))
     cancel_ctx (cancels_at 2) \<lparr>canceled = False, seen = []\<rparr> =
   Some (Some Canceled,
     (\<lparr>canceled = True, seen = [(0, 1), (1, 1)]\<rparr>,
      [ClockTime 0,
       Attempt 1 (Some ErrTest), StrategyDelay 1 0 millisecond,
       Handler 0 1 millisecond ErrTest, Handler 1 1 millisecond ErrTest,
       NewTimer millisecond, Select TimerFired,
       Attempt 2 (Some ErrTest), StrategyDelay 2 0 Exit, CtxErr (Some Canceled), TimerStop])) \<and>
   TryWithContext 2 (amd64 timer_first) (observed_cycler (Limit (constant_delay millisecond) 2))
     cancel_ctx always_fails \<lparr>canceled = False, seen = []\<rparr> =
   Some (Some ErrTest,
     (\<lparr>canceled = False, seen = [(0, 1), (1, 1)]\<rparr>,
      [ClockTime 0,
       Attempt 1 (Some ErrTest), StrategyDelay 1 0 millisecond,
       Handler 0 1 millisecond ErrTest, Handler 1 1 millisecond ErrTest,
       NewTimer millisecond, Select TimerFired,
       Attempt 2 (Some ErrTest), StrategyDelay 2 0 Exit, CtxErr None, TimerStop]))"
proof -
  let ?R = "amd64 timer_first :: world runtime"
  let ?c = "observed_cycler (Limit (constant_delay millisecond) 2)"
  let ?w0 = "\<lparr>canceled = False, seen = []\<rparr>"
  let ?w1 = "\<lparr>canceled = False, seen = [(0, 1), (1, 1)]\<rparr>"
  let ?w2 = "\<lparr>canceled = True, seen = [(0, 1), (1, 1)]\<rparr>"
  let ?tr1 = "[ClockTime 0,
       Attempt 1 (Some ErrTest), StrategyDelay 1 0 millisecond,
       Handler 0 1 millisecond ErrTest, Handler 1 1 millisecond ErrTest,
       NewTimer millisecond, Select TimerFired]"
  have h0: "at_loop_head ?R ?c cancel_ctx (cancels_at 2) ?w0 0 0 False (?w0, [ClockTime 0])"
    by (rule at_loop_head.entry) (simp add: fixture_defs)
  have h1: "at_loop_head ?R ?c cancel_ctx (cancels_at 2) ?w0 0 1 True (?w1, ?tr1)"
    using at_loop_head.again[OF h0, of True "(?w1, ?tr1)"]
    by (simp add: run_defs fixture_defs)
  have a: "cancels_at 2 (1 + 1) ?w1 = (Some (Error ''test''), ?w2)"
    by (simp add: fixture_defs)
  have d: "Delay ?R (strategy ?c) (1 + 1) 0 ?w2 = (Exit, ?w2)"
    by (simp add: run_defs fixture_defs)
  have g0: "at_loop_head ?R ?c cancel_ctx always_fails ?w0 0 0 False (?w0, [ClockTime 0])"
    by (rule at_loop_head.entry) (simp add: fixture_defs)
  have g1: "at_loop_head ?R ?c cancel_ctx always_fails ?w0 0 1 True (?w1, ?tr1)"
    using at_loop_head.again[OF g0, of True "(?w1, ?tr1)"]
    by (simp add: run_defs fixture_defs)
  have b: "always_fails (1 + 1) ?w1 = (Some (Error ''test''), ?w1)"
    by (simp add: fixture_defs)
  have e: "Delay ?R (strategy ?c) (1 + 1) 0 ?w1 = (Exit, ?w1)"
    by (simp add: run_defs fixture_defs)
  show ?thesis
    using TryWithContext_exit[OF h1 a d, of 0] TryWithContext_exit[OF g1 b e, of 0]
    by (simp add: cancel_ctx_def ErrTest_def Canceled_def numeral_2_eq_2)
qed

text \<open>
  Claim C2. Take any retry cycle that has reached a loop head after \<open>n\<close> attempts. If
  attempt \<open>n + 1\<close> returns an \<^verbatim>\<open>ExitError\<close>, the cycle returns exactly its cause, in
  the world the attempt left: after the attempt the trace holds no call of the strategy
  and no call of a handler, only the deferred stop of the timer.
\<close>

theorem TryWithContext_terminal:
  assumes "at_loop_head R c ctx attempt w start n t (w', tr)"
    and "attempt (n + 1) w' = (Some (ExitError cause), w1)"
  shows "TryWithContext (nat n + Suc k) R c ctx attempt w =
     Some (cause, (w1, tr @ [Attempt (n + 1) (Some (ExitError cause))] @ (if t then [TimerStop] else [])))"
proof -
  have "TryWithContext (nat n + Suc k) R c ctx attempt w =
        deferred (retry_loop (Suc k) R c ctx attempt start n t (w', tr))"
    using run_from_head[OF assms(1)] by blast
  then show ?thesis using assms(2)
    by (simp add: iteration_terminal deferred_def)
qed

theorem TryWithContext_terminal_witness:
  "TryWithContext 3 (amd64 timer_first) (observed_cycler (constant_delay millisecond)) Background
     (exits_at 3) \<lparr>canceled = False, seen = []\<rparr> =
   Some (Some ErrTest,
     (\<lparr>canceled = False, seen = [(0, 1), (1, 1), (0, 2), (1, 2)]\<rparr>,
      [ClockTime 0,
       Attempt 1 (Some ErrTest), StrategyDelay 1 0 millisecond,
       Handler 0 1 millisecond ErrTest, Handler 1 1 millisecond ErrTest,
       NewTimer millisecond, Select TimerFired,
       Attempt 2 (Some ErrTest), StrategyDelay 2 0 millisecond,
       Handler 0 2 millisecond ErrTest, Handler 1 2 millisecond ErrTest,
       TimerReset millisecond, Select TimerFired,
       Attempt 3 (Some (ExitError (Some ErrTest))), TimerStop]))"
proof -
  let ?R = "amd64 timer_first :: world runtime"
  let ?c = "observed_cycler (constant_delay millisecond)"
  let ?w0 = "\<lparr>canceled = False, seen = []\<rparr>"
  let ?w1 = "\<lparr>canceled = False, seen = [(0, 1), (1, 1)]\<rparr>"
  let ?w2 = "\<lparr>canceled = False, seen = [(0, 1), (1, 1), (0, 2), (1, 2)]\<rparr>"
  let ?tr1 = "[ClockTime 0,
       Attempt 1 (Some ErrTest), StrategyDelay 1 0 millisecond,
       Handler 0 1 millisecond ErrTest, Handler 1 1 millisecond ErrTest,
       NewTimer millisecond, Select TimerFired]"
  let ?tr2 = "?tr1 @ [Attempt 2 (Some ErrTest), StrategyDelay 2 0 millisecond,
       Handler 0 2 millisecond ErrTest, Handler 1 2 millisecond ErrTest,
       TimerReset millisecond, Select TimerFired]"
  have h0: "at_loop_head ?R ?c Background (exits_at 3) ?w0 0 0 False (?w0, [ClockTime 0])"
    by (rule at_loop_head.entry) (simp add: fixture_defs)
  have h1: "at_loop_head ?R ?c Background (exits_at 3) ?w0 0 1 True (?w1, ?tr1)"
    using at_loop_head.again[OF h0, of True "(?w1, ?tr1)"]
    by (simp add: run_defs fixture_defs)
  have h2: "at_loop_head ?R ?c Background (exits_at 3) ?w0 0 2 True (?w2, ?tr2)"
    using at_loop_head.again[OF h1, of True "(?w2, ?tr2)"]
    by (simp add: run_defs fixture_defs)
  have a: "exits_at 3 (2 + 1) ?w2 = (Some (ExitError (Some ErrTest)), ?w2)"
    by (simp add: fixture_defs)
  show ?thesis
    using TryWithContext_terminal[OF h2 a, of 0] by simp
qed

text \<open>
  Claim C4. One pass of the loop, from any state, in its four cases. When the attempt
  fails with an ordinary error and the strategy returns a delay \<open>d\<close> other than
  \<open>Exit\<close>, every handler is called with the attempt number, \<open>d\<close> and the attempt's
  error, in the order of registration (handler \<open>0\<close> first; the world is passed from
  one handler to the next), after the call of the strategy and before the timer is set
  and the \<^verbatim>\<open>select\<close> statement waits. When the attempt succeeds, returns an
  \<^verbatim>\<open>ExitError\<close> or the strategy returns \<open>Exit\<close>, the pass calls no handler.
\<close>

theorem observers_notified:
  "(attempt n w = (None, w1) \<longrightarrow>
      iteration R c ctx attempt start n t (w, tr) = (Return None, t, (w1, tr @ [Attempt n None]))) \<and>
   (attempt n w = (Some (ExitError cause), w1) \<longrightarrow>
      iteration R c ctx attempt start n t (w, tr) =
        (Return cause, t, (w1, tr @ [Attempt n (Some (ExitError cause))]))) \<and>
   (attempt n w = (Some (Error msg), w1) \<and> Delay R (strategy c) n start w1 = (Exit, w2) \<longrightarrow>
      iteration R c ctx attempt start n t (w, tr) =
        (Return (case Err ctx w2 of None \<Rightarrow> Some (Error msg) | Some e \<Rightarrow> Some e), t,
         (w2, tr @ [Attempt n (Some (Error msg)), StrategyDelay n start Exit, CtxErr (Err ctx w2)]))) \<and>
   (attempt n w = (Some (Error msg), w1) \<and> Delay R (strategy c) n start w1 = (d, w2) \<and> d \<noteq> Exit \<and>
    select_wait R ctx d (foldl (\<lambda>w h. h n d (Error msg) w) w2 (handlers c)) = (sc, w4) \<longrightarrow>
      iteration R c ctx attempt start n t (w, tr) =
        (if sc = CtxDone then Return (Err ctx w4) else Continue, True,
         (w4, tr @ [Attempt n (Some (Error msg)), StrategyDelay n start d]
                 @ map (\<lambda>i. Handler i n d (Error msg)) [0..<length (handlers c)]
                 @ [timer_event t d, Select sc]
                 @ (if sc = CtxDone then [CtxErr (Err ctx w4)] else []))))"
proof (intro conjI impI)
  assume "attempt n w = (None, w1)"
  then show "iteration R c ctx attempt start n t (w, tr) = (Return None, t, (w1, tr @ [Attempt n None]))"
    by (simp add: iteration_success)
next
  assume "attempt n w = (Some (ExitError cause), w1)"
  then show "iteration R c ctx attempt start n t (w, tr) =
        (Return cause, t, (w1, tr @ [Attempt n (Some (ExitError cause))]))"
    by (simp add: iteration_terminal)
next
  assume "attempt n w = (Some (Error msg), w1) \<and> Delay R (strategy c) n start w1 = (Exit, w2)"
  then show "iteration R c ctx attempt start n t (w, tr) =
        (Return (case Err ctx w2 of None \<Rightarrow> Some (Error msg) | Some e \<Rightarrow> Some e), t,
         (w2, tr @ [Attempt n (Some (Error msg)), StrategyDelay n start Exit, CtxErr (Err ctx w2)]))"
    by (simp add: iteration_exit)
next
  assume a: "attempt n w = (Some (Error msg), w1) \<and> Delay R (strategy c) n start w1 = (d, w2) \<and> d \<noteq> Exit \<and>
    select_wait R ctx d (foldl (\<lambda>w h. h n d (Error msg) w) w2 (handlers c)) = (sc, w4)"
  show "iteration R c ctx attempt start n t (w, tr) =
        (if sc = CtxDone then Return (Err ctx w4) else Continue, True,
         (w4, tr @ [Attempt n (Some (Error msg)), StrategyDelay n start d]
                 @ map (\<lambda>i. Handler i n d (Error msg)) [0..<length (handlers c)]
                 @ [timer_event t d, Select sc]
                 @ (if sc = CtxDone then [CtxErr (Err ctx w4)] else [])))"
    by (rule iteration_retry[of attempt n w msg w1 R c start d w2 ctx sc w4 t tr]) (simp_all add: a)
qed

theorem observers_notified_witness:
  "iteration (amd64 timer_first) (observed_cycler (constant_delay millisecond)) cancel_ctx always_fails 0 1 False
     (\<lparr>canceled = False, seen = []\<rparr>, []) =
   (Continue, True,
    (\<lparr>canceled = False, seen = [(0, 1), (1, 1)]\<rparr>,
     [Attempt 1 (Some ErrTest), StrategyDelay 1 0 millisecond,
      Handler 0 1 millisecond ErrTest, Handler 1 1 millisecond ErrTest,
      NewTimer millisecond, Select TimerFired])) \<and>
   iteration (amd64 timer_first) (observed_cycler (constant_delay millisecond)) cancel_ctx succeeds 0 1 False
     (\<lparr>canceled = False, seen = []\<rparr>, []) =
   (Return None, False, (\<lparr>canceled = False, seen = []\<rparr>, [Attempt 1 None])) \<and>
   iteration (amd64 timer_first) (observed_cycler (constant_delay millisecond)) cancel_ctx (exits_at 1) 0 1 False
     (\<lparr>canceled = False, seen = []\<rparr>, []) =
   (Return (Some ErrTest), False,
    (\<lparr>canceled = False, seen = []\<rparr>, [Attempt 1 (Some (ExitError (Some ErrTest)))])) \<and>
   iteration (amd64 timer_first) (observed_cycler Once) cancel_ctx always_fails 0 1 False
     (\<lparr>canceled = False, seen = []\<rparr>, []) =
   (Return (Some ErrTest), False,
    (\<lparr>canceled = False, seen = []\<rparr>,
     [Attempt 1 (Some ErrTest), StrategyDelay 1 0 Exit, CtxErr None]))"
proof -
  let ?R = "amd64 timer_first :: world runtime"
  let ?c = "observed_cycler (constant_delay millisecond)"
  let ?w = "\<lparr>canceled = False, seen = []\<rparr>"
  let ?w1 = "\<lparr>canceled = False, seen = [(0, 1), (1, 1)]\<rparr>"
  note T = observers_notified[where R = ?R and ctx = cancel_ctx and start = 0 and n = 1 and t = False
      and w = ?w and tr = "[]"]
  have 1: "always_fails 1 ?w = (Some (Error ''test''), ?w) \<and>
           Delay ?R (strategy ?c) 1 0 ?w = (millisecond, ?w) \<and> millisecond \<noteq> Exit \<and>
           select_wait ?R cancel_ctx millisecond
             (foldl (\<lambda>w h. h 1 millisecond (Error ''test'') w) ?w (handlers ?c)) = (TimerFired, ?w1)"
    by (simp add: run_defs fixture_defs)
  have 2: "succeeds 1 ?w = (None, ?w)"
    by (simp add: fixture_defs)
  have 3: "exits_at 1 1 ?w = (Some (ExitError (Some ErrTest)), ?w)"
    by (simp add: fixture_defs)
  have 4: "always_fails 1 ?w = (Some (Error ''test''), ?w) \<and>
           Delay ?R (strategy (observed_cycler Once)) 1 0 ?w = (Exit, ?w)"
    by (simp add: run_defs fixture_defs Once_def)
  have c1: "length (handlers ?c) = 2" by (simp add: fixture_defs)
  have u: "[0..<2] = [0, Suc 0]" by (simp add: upt_rec)
  show ?thesis
    using T[where c = ?c and attempt = always_fails and msg = "''test''" and d = millisecond
             and ?w1.0 = ?w and ?w2.0 = ?w and sc = TimerFired and ?w4.0 = ?w1, THEN conjunct2, THEN conjunct2,
             THEN conjunct2, THEN mp, OF 1]
          T[where c = ?c and attempt = succeeds and ?w1.0 = ?w, THEN conjunct1, THEN mp, OF 2]
          T[where c = ?c and attempt = "exits_at 1" and ?w1.0 = ?w and cause = "Some ErrTest",
             THEN conjunct2, THEN conjunct1, THEN mp, OF 3]
          T[where c = "observed_cycler Once" and attempt = always_fails and msg = "''test''"
             and ?w1.0 = ?w and ?w2.0 = ?w, THEN conjunct2, THEN conjunct2, THEN conjunct1, THEN mp, OF 4]
    by (simp add: c1 u timer_event_def cancel_ctx_def ErrTest_def)
qed

text \<open>
  Claim C9. Whenever \<^verbatim>\<open>TryWithContext\<close> or \<^verbatim>\<open>Try\<close> returns, whatever the cycler, the
  attempt and the context (a context that is done from the start included), the trace
  begins with the read of the clock and the call of the attempt with number \<open>1\<close>: the
  attempt has been invoked before anything else is consulted.
\<close>

theorem attempt_at_least_once:
  "(TryWithContext fuel R c ctx attempt w = Some (err, (w', tr)) \<longrightarrow>
      take 2 tr = [ClockTime (fst (Clock c w)), Attempt 1 (fst (attempt 1 (snd (Clock c w))))]) \<and>
   (Try fuel R c attempt w = Some (err, (w', tr)) \<longrightarrow>
      take 2 tr = [ClockTime (fst (Clock c w)), Attempt 1 (fst (attempt 1 (snd (Clock c w))))])"
proof -
  have main: "take 2 tr = [ClockTime (fst (Clock c w)), Attempt 1 (fst (attempt 1 (snd (Clock c w))))]"
    if run: "TryWithContext fuel R c cx attempt w = Some (err, (w', tr))" for cx
  proof -
    obtain start w0 where C: "Clock c w = (start, w0)" by (cases "Clock c w")
    from run C obtain t tr0 where
      L: "retry_loop fuel R c cx attempt start 0 False (w0, [ClockTime start]) = Some (err, t, (w', tr0))"
      and T: "tr = (if t then tr0 @ [TimerStop] else tr0)"
      by (auto simp: TryWithContext_def deferred_def split: option.splits prod.splits)
    from retry_loop_trace_prefix[OF L] obtain rest where
      "tr0 = [ClockTime start] @ Attempt (0 + 1) (fst (attempt (0 + 1) w0)) # rest" by blast
    then show ?thesis using T C by simp
  qed
  show ?thesis using main by (simp add: Try_def)
qed

theorem attempt_at_least_once_witness:
  "TryWithContext 1 (amd64 done_first) (observed_cycler (constant_delay millisecond)) cancel_ctx
     always_fails \<lparr>canceled = True, seen = []\<rparr> =
   Some (Some Canceled,
     (\<lparr>canceled = True, seen = [(0, 1), (1, 1)]\<rparr>,
      [ClockTime 0,
       Attempt 1 (Some ErrTest), StrategyDelay 1 0 millisecond,
       Handler 0 1 millisecond ErrTest, Handler 1 1 millisecond ErrTest,
       NewTimer millisecond, Select CtxDone, CtxErr (Some Canceled), TimerStop])) \<and>
   take 2 [ClockTime 0,
       Attempt 1 (Some ErrTest), StrategyDelay 1 0 millisecond,
       Handler 0 1 millisecond ErrTest, Handler 1 1 millisecond ErrTest,
       NewTimer millisecond, Select CtxDone, CtxErr (Some Canceled), TimerStop] =
     [ClockTime 0, Attempt 1 (Some ErrTest)] \<and>
   Try 1 (amd64 timer_first) (observed_cycler (constant_delay millisecond)) succeeds
     \<lparr>canceled = True, seen = []\<rparr> =
   Some (None, (\<lparr>canceled = True, seen = []\<rparr>, [ClockTime 0, Attempt 1 None]))"
proof -
  let ?c = "observed_cycler (constant_delay millisecond)"
  let ?w = "\<lparr>canceled = True, seen = []\<rparr>"
  let ?tr = "[ClockTime 0,
       Attempt 1 (Some ErrTest), StrategyDelay 1 0 millisecond,
       Handler 0 1 millisecond ErrTest, Handler 1 1 millisecond ErrTest,
       NewTimer millisecond, Select CtxDone, CtxErr (Some Canceled), TimerStop]"
  have run: "TryWithContext 1 (amd64 done_first) ?c cancel_ctx always_fails ?w =
     Some (Some Canceled, (\<lparr>canceled = True, seen = [(0, 1), (1, 1)]\<rparr>, ?tr))"
    by (simp add: TryWithContext_def deferred_def run_defs fixture_defs)
  have run2: "Try 1 (amd64 timer_first) ?c succeeds ?w = Some (None, (?w, [ClockTime 0, Attempt 1 None]))"
    by (simp add: Try_def TryWithContext_def deferred_def run_defs fixture_defs)
  have "take 2 ?tr = [ClockTime (fst (Clock ?c ?w)), Attempt 1 (fst (always_fails 1 (snd (Clock ?c ?w))))]"
    using attempt_at_least_once[of 1 "amd64 done_first" ?c cancel_ctx always_fails ?w] run by blast
  then show ?thesis using run run2 by (simp add: fixture_defs)
qed

text \<open>
  Claim C10. Take any retry cycle that has reached a loop head after \<open>n\<close> attempts, and
  let attempt \<open>n + 1\<close> fail with an ordinary error in a world where \<^verbatim>\<open>ctx.Err()\<close> is
  already set, the strategy returning a delay other than \<open>Exit\<close>. Then every handler is
  called for that attempt, in the order of registration, and only then the
  \<^verbatim>\<open>select\<close> statement observes the cancellation and the cycle returns
  \<^verbatim>\<open>ctx.Err()\<close>: between the attempt and the handlers the trace holds the call of the
  strategy and no call of \<^verbatim>\<open>ctx.Err()\<close>.
\<close>

theorem handlers_before_cancellation:
  assumes "at_loop_head R c ctx attempt w start n t (w', tr)"
    and "attempt (n + 1) w' = (Some (Error msg), w1)"
    and "Err ctx w1 \<noteq> None"
    and "Delay R (strategy c) (n + 1) start w1 = (d, w2)" and "d \<noteq> Exit"
    and "select_wait R ctx d (foldl (\<lambda>w h. h (n + 1) d (Error msg) w) w2 (handlers c)) = (CtxDone, w4)"
  shows "TryWithContext (nat n + Suc k) R c ctx attempt w =
     Some (Err ctx w4,
           (w4, tr @ [Attempt (n + 1) (Some (Error msg)), StrategyDelay (n + 1) start d]
                   @ map (\<lambda>i. Handler i (n + 1) d (Error msg)) [0..<length (handlers c)]
                   @ [timer_event t d, Select CtxDone, CtxErr (Err ctx w4), TimerStop]))"
proof -
  have "TryWithContext (nat n + Suc k) R c ctx attempt w =
        deferred (retry_loop (Suc k) R c ctx attempt start n t (w', tr))"
    using run_from_head[OF assms(1)] by blast
  moreover have "iteration R c ctx attempt start (n + 1) t (w', tr) =
     (Return (Err ctx w4), True,
      (w4, tr @ [Attempt (n + 1) (Some (Error msg)), StrategyDelay (n + 1) start d]
              @ map (\<lambda>i. Handler i (n + 1) d (Error msg)) [0..<length (handlers c)]
              @ [timer_event t d, Select CtxDone, CtxErr (Err ctx w4)]))"
    using iteration_retry[of attempt "n + 1" w' msg w1 R c start d w2 ctx CtxDone w4 t tr, OF assms(2,4,5,6)]
    by simp
  ultimately show ?thesis by (simp add: deferred_def)
qed

theorem handlers_before_cancellation_witness:
  "TryWithContext 2 (amd64 done_first) (observed_cycler (constant_delay millisecond)) cancel_ctx
     (cancels_at 2) \<lparr>canceled = False, seen = []\<rparr> =
   Some (Some Canceled,
     (\<lparr>canceled = True, seen = [(0, 1), (1, 1), (0, 2), (1, 2)]\<rparr>,
      [ClockTime 0,
       Attempt 1 (Some ErrTest), StrategyDelay 1 0 millisecond,
       Handler 0 1 millisecond ErrTest, Handler 1 1 millisecond ErrTest,
       NewTimer millisecond, Select TimerFired,
       Attempt 2 (Some ErrTest), StrategyDelay 2 0 millisecond,
       Handler 0 2 millisecond ErrTest, Handler 1 2 millisecond ErrTest,
       TimerReset millisecond, Select CtxDone, CtxErr (Some Canceled), TimerStop]))"
proof -
  let ?R = "amd64 done_first :: world runtime"
  let ?c = "observed_cycler (constant_delay millisecond)"
  let ?w0 = "\<lparr>canceled = False, seen = []\<rparr>"
  let ?w1 = "\<lparr>canceled = False, seen = [(0, 1), (1, 1)]\<rparr>"
  let ?w2 = "\<lparr>canceled = True, seen = [(0, 1), (1, 1)]\<rparr>"
  let ?w3 = "\<lparr>canceled = True, seen = [(0, 1), (1, 1), (0, 2), (1, 2)]\<rparr>"
  let ?tr1 = "[ClockTime 0,
       Attempt 1 (Some ErrTest), StrategyDelay 1 0 millisecond,
       Handler 0 1 millisecond ErrTest, Handler 1 1 millisecond ErrTest,
       NewTimer millisecond, Select TimerFired]"
  have h0: "at_loop_head ?R ?c cancel_ctx (cancels_at 2) ?w0 0 0 False (?w0, [ClockTime 0])"
    by (rule at_loop_head.entry) (simp add: fixture_defs)
  have h1: "at_loop_head ?R ?c cancel_ctx (cancels_at 2) ?w0 0 1 True (?w1, ?tr1)"
    using at_loop_head.again[OF h0, of True "(?w1, ?tr1)"]
    by (simp add: run_defs fixture_defs)
  have a: "cancels_at 2 (1 + 1) ?w1 = (Some (Error ''test''), ?w2)"
    by (simp add: fixture_defs)
  have e: "Err cancel_ctx ?w2 \<noteq> None"
    by (simp add: fixture_defs)
  have d: "Delay ?R (strategy ?c) (1 + 1) 0 ?w2 = (millisecond, ?w2)"
    by (simp add: run_defs fixture_defs)
  have x: "millisecond \<noteq> Exit"
    by (simp add: run_defs fixture_defs)
  have s: "select_wait ?R cancel_ctx millisecond
             (foldl (\<lambda>w h. h (1 + 1) millisecond (Error ''test'') w) ?w2 (handlers ?c)) = (CtxDone, ?w3)"
    by (simp add: run_defs fixture_defs)
  have c1: "length (handlers ?c) = 2" by (simp add: fixture_defs)
  have u: "[0..<2] = [0, Suc 0]" by (simp add: upt_rec)
  show ?thesis
    using handlers_before_cancellation[OF h1 a e d x s, of 0]
    by (simp add: c1 u timer_event_def cancel_ctx_def ErrTest_def Canceled_def numeral_2_eq_2)
qed

section \<open>The claims about the decorators\<close>

text \<open>
  Claim C6. For a limit above zero, the strategy built by \<^verbatim>\<open>Timeout\<close> returns \<open>Exit\<close>
  when the time the clock shows minus the start of the cycle is at least the limit (the
  difference of the two instants itself; equality included), and otherwise the delay of
  the inner strategy for the same attempt and start.
\<close>

theorem Timeout_Delay:
  assumes "0 < sint lmt"
  shows "Delay R (Timeout s lmt clock) n start w =
     (case clock w of
        (now, w') \<Rightarrow> if sint lmt \<le> now - start then (Exit, w') else Delay R s n start w')"
  using assms by (simp add: Timeout_def Sub_ge_iff split: prod.splits)

theorem Timeout_Delay_witness:
  "Delay (amd64 timer_first)
     (Timeout (constant_delay second) 2000000000 (fixed_clock 2000000000)) 1 0 () = (Exit, ()) \<and>
   Delay (amd64 timer_first)
     (Timeout (constant_delay second) 2000000000 (fixed_clock 1999999999)) 1 0 () = (second, ())"
proof -
  have p: "0 < sint (2000000000 :: duration)" by simp
  show ?thesis
    using Timeout_Delay[OF p, of "amd64 timer_first" "constant_delay second" "fixed_clock 2000000000" 1 0 "()"]
          Timeout_Delay[OF p, of "amd64 timer_first" "constant_delay second" "fixed_clock 1999999999" 1 0 "()"]
    by (simp add: fixed_clock_def)
qed

text \<open>
  Claim C8. A decorator built with a disabling parameter is the inner strategy itself,
  with no wrapper around it: \<^verbatim>\<open>Cap\<close> with \<open>max \<le> 0\<close>, \<^verbatim>\<open>Limit\<close> with \<open>n < 1\<close>,
  \<^verbatim>\<open>Timeout\<close> with \<open>limit \<le> 0\<close> and \<^verbatim>\<open>Jitter\<close> with \<open>spread = 0\<close>.
\<close>

theorem disabled_decorators:
  "(sint mx \<le> 0 \<longrightarrow> Cap s mx = s) \<and>
   (n < 1 \<longrightarrow> Limit s n = s) \<and>
   (sint lmt \<le> 0 \<longrightarrow> Timeout s lmt clock = s) \<and>
   Jitter s (Fin 0) random = Inr s"
  by (simp add: Cap_def Limit_def Timeout_def Jitter_def feq_def fge_def)

theorem disabled_decorators_witness:
  "Cap (constant_delay second :: unit Strategy) 0 = constant_delay second \<and>
   Limit (constant_delay second :: unit Strategy) 0 = constant_delay second \<and>
   Timeout (constant_delay second :: unit Strategy) 0 (fixed_clock 0) = constant_delay second \<and>
   Jitter (constant_delay second :: unit Strategy) (Fin 0) (fixed_random (Fin (1 / 2))) =
     Inr (constant_delay second)"
  using disabled_decorators[of 0 "constant_delay second :: unit Strategy" 0 0 "fixed_clock 0"
      "fixed_random (Fin (1 / 2))"]
  by simp

section \<open>The claims about the float64 strategies\<close>

text \<open>
  Claim C3, amended. The exponential strategy has no guard against overflow. For
  \<open>d \<ge> 0\<close>, \<open>m \<ge> 0\<close> and \<open>n \<ge> 1\<close>, when no operation rounds: if \<open>d * m ^ (n - 1)\<close>
  is below \<open>2^63\<close> the returned delay is not negative and is not \<open>Exit\<close>; if it is
  \<open>2^63\<close> or more, the returned delay is the value the platform gives to the
  conversion of an out-of-range \<^verbatim>\<open>float64\<close>. The same holds when \<^verbatim>\<open>math.Pow\<close>
  overflows to \<open>+Inf\<close> for \<open>d > 0\<close>.
\<close>

theorem Exponential_overflow:
  "(0 \<le> sint d \<and> 0 \<le> m \<and> 1 \<le> n \<and> exponential_exact R (sint d) m n \<longrightarrow>
      (of_int (sint d) * m ^ nat (n - 1) < 2 ^ 63 \<longrightarrow>
         0 \<le> sint (fst (Delay R (exponential d (Fin m)) n start w)) \<and>
         fst (Delay R (exponential d (Fin m)) n start w) \<noteq> Exit) \<and>
      (2 ^ 63 \<le> of_int (sint d) * m ^ nat (n - 1) \<longrightarrow>
         Delay R (exponential d (Fin m)) n start w =
           (overflow R (Fin (of_int (sint d) * m ^ nat (n - 1))), w))) \<and>
   (0 < sint d \<and> exact64 (of_int (sint d)) \<and> pow R f (float64_of_int (n - 1)) = PInf \<longrightarrow>
      Delay R (exponential d f) n start w = (overflow R PInf, w))"
proof (intro conjI impI)
  assume h: "0 \<le> sint d \<and> 0 \<le> m \<and> 1 \<le> n \<and> exponential_exact R (sint d) m n"
  define x :: rat where "x = of_int (sint d) * m ^ nat (n - 1)"
  have x0: "0 \<le> x" unfolding x_def using h by (intro exponential_value_nonneg) blast+
  have ex: "exponential_exact R (sint d) m n" using h by blast
  have ev: "Delay R (exponential d (Fin m)) n start w = (duration_of_float64 R (Fin x), w)"
    unfolding x_def by (rule exponential_Delay_exact[OF ex])
  {
    assume "of_int (sint d) * m ^ nat (n - 1) < (2 ^ 63 :: rat)"
    then have x63: "x < 2 ^ 63" by (simp only: x_def)
    have sv: "sint (fst (Delay R (exponential d (Fin m)) n start w)) = \<lfloor>x\<rfloor>"
      unfolding ev fst_conv
      by (simp only: duration_of_float64_in_range(1)[OF x0 x63] duration_of_float64_in_range(2)[OF x0 x63])
    have f: "0 \<le> \<lfloor>x\<rfloor>" using x0 by simp
    show "0 \<le> sint (fst (Delay R (exponential d (Fin m)) n start w))"
      unfolding sv by (rule f)
    show "fst (Delay R (exponential d (Fin m)) n start w) \<noteq> Exit"
    proof
      assume "fst (Delay R (exponential d (Fin m)) n start w) = Exit"
      then have "sint (fst (Delay R (exponential d (Fin m)) n start w)) = - 1"
        by (simp only: sint_Exit)
      then show False using f unfolding sv by simp
    qed
  }
  {
    assume "(2 ^ 63 :: rat) \<le> of_int (sint d) * m ^ nat (n - 1)"
    then have "2 ^ 63 \<le> x" by (simp only: x_def)
    then show "Delay R (exponential d (Fin m)) n start w =
           (overflow R (Fin (of_int (sint d) * m ^ nat (n - 1))), w)"
      unfolding ev by (simp only: duration_of_float64_overflow x_def)
  }
next
  assume h: "0 < sint d \<and> exact64 (of_int (sint d)) \<and> pow R f (float64_of_int (n - 1)) = PInf"
  then have p: "(0::rat) < of_int (sint d)" by (simp only: of_int_0_less_iff)
  have c: "float64_of_duration d = Fin (of_int (sint d))"
    using h by (simp only: float64_of_duration_def exact64_def)
  have "fmul (Fin (of_int (sint d))) PInf = PInf"
    using p by (simp del: of_int_sint)
  then show "Delay R (exponential d f) n start w = (overflow R PInf, w)"
    using h by (simp add: c duration_of_float64_def del: of_int_sint)
qed

theorem Exponential_overflow_witness:
  "0 \<le> sint (fst (Delay (amd64 timer_first) (exponential second (Fin 2)) 34 0 ())) \<and>
   fst (Delay (amd64 timer_first) (exponential second (Fin 2)) 34 0 ()) \<noteq> Exit \<and>
   Delay (amd64 timer_first) (exponential second (Fin 2)) 35 0 () = (- 9223372036854775808, ()) \<and>
   Delay (amd64 timer_first) (exponential second PInf) 2 0 () = (- 9223372036854775808, ())"
proof -
  let ?R = "amd64 timer_first :: unit runtime"
  note T = Exponential_overflow[where R = ?R and start = 0 and w = "()" and d = second]
  have sv: "(of_int (sint second) :: rat) = 1000000000"
    by (simp add: sint_second del: of_int_sint)
  have ex34: "exponential_exact ?R (sint second) 2 34"
    unfolding exponential_exact_def sv
    by (simp add: exact64_def amd64_def math_Pow_def round64_examples)
  have ex35: "exponential_exact ?R (sint second) 2 35"
    unfolding exponential_exact_def sv
    by (simp add: exact64_def amd64_def math_Pow_def round64_examples)
  have h34: "0 \<le> sint second \<and> (0::rat) \<le> 2 \<and> (1::int) \<le> 34 \<and> exponential_exact ?R (sint second) 2 34"
    using ex34 by (simp add: sint_second)
  have h35: "0 \<le> sint second \<and> (0::rat) \<le> 2 \<and> (1::int) \<le> 35 \<and> exponential_exact ?R (sint second) 2 35"
    using ex35 by (simp add: sint_second)
  have r34: "of_int (sint second) * (2::rat) ^ nat (34 - 1) < 2 ^ 63"
    unfolding sv by simp
  have r35: "(2::rat) ^ 63 \<le> of_int (sint second) * 2 ^ nat (35 - 1)"
    unfolding sv by simp
  have hinf: "0 < sint second \<and> exact64 (of_int (sint second)) \<and>
      pow ?R PInf (float64_of_int (2 - 1)) = PInf"
    unfolding sv
    by (simp add: sint_second exact64_def float64_of_int_def amd64_def math_Pow_def round64_examples)
  have 1: "0 \<le> sint (fst (Delay ?R (exponential second (Fin 2)) 34 0 ())) \<and>
           fst (Delay ?R (exponential second (Fin 2)) 34 0 ()) \<noteq> Exit"
    using T[where m = 2 and n = 34, THEN conjunct1, THEN mp, OF h34, THEN conjunct1, THEN mp, OF r34] .
  have 2: "Delay ?R (exponential second (Fin 2)) 35 0 () =
           (overflow ?R (Fin (of_int (sint second) * 2 ^ nat (35 - 1))), ())"
    using T[where m = 2 and n = 35, THEN conjunct1, THEN mp, OF h35, THEN conjunct2, THEN mp, OF r35] .
  have 3: "Delay ?R (exponential second PInf) 2 0 () = (overflow ?R PInf, ())"
    using T[where f = PInf and n = 2, THEN conjunct2, THEN mp, OF hinf] .
  have o: "overflow ?R x = - 9223372036854775808" for x
    by (simp add: amd64_def)
  show ?thesis
    using 1 2 3 unfolding o by blast
qed

text \<open>
  The claim as it was stated fails on amd64: \<^verbatim>\<open>exponential(1s, 2.0)\<close> returns the
  smallest \<^verbatim>\<open>int64\<close>, a negative duration, for \<open>n = 35\<close>, where \<open>10^9 * 2^34\<close> exceeds
  the largest duration.
\<close>

theorem Exponential_overflow_counterexample:
  "Exponential second (Fin 2) = Inr (exponential second (Fin 2)) \<and>
   Delay (amd64 timer_first) (exponential second (Fin 2)) 35 0 () = (- 9223372036854775808, ()) \<and>
   sint (- 9223372036854775808 :: duration) < 0 \<and>
   (2 ^ 63 - 1 :: rat) < of_int (sint second) * 2 ^ nat (35 - 1)"
  by (simp add: Exponential_def feq_def float_eval del: of_int_sint)

text \<open>
  Claim C5, amended. Let the inner strategy return the delay \<open>D\<close>. If \<open>D\<close> is
  \<open>Exit\<close>, the jitter strategy returns \<open>Exit\<close> (whatever its spread; the random source
  is not asked). \<^verbatim>\<open>Jitter\<close> with spread \<open>0\<close> is the inner strategy, so it reproduces
  \<open>D\<close>. Otherwise, for \<open>D \<ge> 0\<close>, a spread \<open>sp\<close> in \<open>(0, 1)\<close> and a random number \<open>r\<close> in
  \<open>[0, 1)\<close>: when no operation rounds and the value
  \<open>D - sp * D + r * (2 * sp * D + 1)\<close> is below \<open>2^63\<close>, the strategy returns that value
  truncated to whole nanoseconds; the value lies in
  \<open>[D * (1 - sp), D * (1 + sp) + 1)\<close>, and the returned duration lies strictly between
  \<open>D * (1 - sp) - 1\<close> and \<open>D * (1 + sp) + 1\<close>: the truncation may leave it below
  \<open>D * (1 - sp)\<close>. When the operations do round, and \<open>D\<close> is below \<open>2^48\<close> ns (about
  78 hours), the six roundings of the computation move the value by at most half a
  nanosecond in total, and the returned duration lies strictly between
  \<open>D * (1 - sp) - 3/2\<close> and \<open>D * (1 + sp) + 3/2\<close>.
\<close>

theorem Jitter_Delay:
  "Delay R s n start w = (D, w1) \<longrightarrow>
     (D = Exit \<longrightarrow> Delay R (jitter s spread random) n start w = (Exit, w1)) \<and>
     Jitter s (Fin 0) random = Inr s \<and>
     (0 < sp \<and> sp < 1 \<longrightarrow> Jitter s (Fin sp) random = Inr (jitter s (Fin sp) random)) \<and>
     (D \<noteq> Exit \<and> 0 \<le> sint D \<and> 0 < sp \<and> sp < 1 \<and> random w1 = (Fin r, w2) \<and> 0 \<le> r \<and> r < 1 \<and>
      jitter_exact (of_int (sint D)) sp r \<and> jitter_value (of_int (sint D)) sp r < 2 ^ 63 \<longrightarrow>
        Delay R (jitter s (Fin sp) random) n start w =
          (word_of_int \<lfloor>jitter_value (of_int (sint D)) sp r\<rfloor>, w2) \<and>
        of_int (sint D) * (1 - sp) \<le> jitter_value (of_int (sint D)) sp r \<and>
        jitter_value (of_int (sint D)) sp r < of_int (sint D) * (1 + sp) + 1 \<and>
        of_int (sint D) * (1 - sp) - 1 < of_int (sint (fst (Delay R (jitter s (Fin sp) random) n start w))) \<and>
        of_int (sint (fst (Delay R (jitter s (Fin sp) random) n start w))) < of_int (sint D) * (1 + sp) + 1) \<and>
     (D \<noteq> Exit \<and> 0 \<le> sint D \<and> sint D < 2 ^ 48 \<and> 0 < sp \<and> sp < 1 \<and>
      random w1 = (Fin r, w2) \<and> 0 \<le> r \<and> r < 1 \<longrightarrow>
        snd (Delay R (jitter s (Fin sp) random) n start w) = w2 \<and>
        of_int (sint D) * (1 - sp) - 3 / 2 <
          of_int (sint (fst (Delay R (jitter s (Fin sp) random) n start w))) \<and>
        of_int (sint (fst (Delay R (jitter s (Fin sp) random) n start w))) <
          of_int (sint D) * (1 + sp) + 3 / 2)"
proof (intro impI conjI)
  assume inner: "Delay R s n start w = (D, w1)"
  show "Delay R (jitter s spread random) n start w = (Exit, w1)" if "D = Exit"
    using inner that by simp
  show "Jitter s (Fin 0) random = Inr s"
    by (simp add: Jitter_def feq_def fge_def)
  show "Jitter s (Fin sp) random = Inr (jitter s (Fin sp) random)" if "0 < sp \<and> sp < 1"
    using that by (simp add: Jitter_def feq_def fge_def)
  {
    assume h: "D \<noteq> Exit \<and> 0 \<le> sint D \<and> 0 < sp \<and> sp < 1 \<and> random w1 = (Fin r, w2) \<and> 0 \<le> r \<and> r < 1 \<and>
      jitter_exact (of_int (sint D)) sp r \<and> jitter_value (of_int (sint D)) sp r < 2 ^ 63"
    then have ne: "D \<noteq> Exit" and d0: "0 \<le> sint D" and sp: "0 < sp" "sp < 1"
      and rnd: "random w1 = (Fin r, w2)" and r: "0 \<le> r" "r < 1"
      and ex: "jitter_exact (of_int (sint D)) sp r"
      and rng: "jitter_value (of_int (sint D)) sp r < 2 ^ 63"
      by blast+
    note E = jitter_Delay_exact_window[where random = random, OF inner ne d0 sp rnd r ex rng]
    show "Delay R (jitter s (Fin sp) random) n start w =
          (word_of_int \<lfloor>jitter_value (of_int (sint D)) sp r\<rfloor>, w2)"
      by (rule E(1))
    show "of_int (sint D) * (1 - sp) \<le> jitter_value (of_int (sint D)) sp r"
      by (rule E(2))
    show "jitter_value (of_int (sint D)) sp r < of_int (sint D) * (1 + sp) + 1"
      by (rule E(3))
    show "of_int (sint D) * (1 - sp) - 1 < of_int (sint (fst (Delay R (jitter s (Fin sp) random) n start w)))"
      by (rule E(4))
    show "of_int (sint (fst (Delay R (jitter s (Fin sp) random) n start w))) < of_int (sint D) * (1 + sp) + 1"
      by (rule E(5))
  }
  {
    assume h: "D \<noteq> Exit \<and> 0 \<le> sint D \<and> sint D < 2 ^ 48 \<and> 0 < sp \<and> sp < 1 \<and>
      random w1 = (Fin r, w2) \<and> 0 \<le> r \<and> r < 1"
    then have ne: "D \<noteq> Exit" and d: "0 \<le> sint D" "sint D < 2 ^ 48" and sp: "0 < sp" "sp < 1"
      and rnd: "random w1 = (Fin r, w2)" and r: "0 \<le> r" "r < 1"
      by blast+
    note N = jitter_Delay_near_window[where random = random, OF inner ne d sp rnd r]
    show "snd (Delay R (jitter s (Fin sp) random) n start w) = w2"
      by (rule N(1))
    show "of_int (sint D) * (1 - sp) - 3 / 2 <
          of_int (sint (fst (Delay R (jitter s (Fin sp) random) n start w)))"
      by (rule N(2))
    show "of_int (sint (fst (Delay R (jitter s (Fin sp) random) n start w))) <
          of_int (sint D) * (1 + sp) + 3 / 2"
      by (rule N(3))
  }
qed

theorem Jitter_Delay_witness:
  "Delay (amd64 timer_first)
     (jitter (constant_delay second) (Fin (1 / 4)) (fixed_random (Fin (1 / 4)))) 1 0 () =
     (875000000, ()) \<and>
   Delay (amd64 timer_first) (jitter Once (Fin (1 / 2)) (fixed_random (Fin (1 / 2)))) 1 0 () =
     (Exit, ()) \<and>
   Jitter (constant_delay second :: unit Strategy) (Fin 0) (fixed_random (Fin (1 / 2))) =
     Inr (constant_delay second) \<and>
   Jitter (constant_delay second :: unit Strategy) (Fin (1 / 4)) (fixed_random (Fin (1 / 4))) =
     Inr (jitter (constant_delay second) (Fin (1 / 4)) (fixed_random (Fin (1 / 4)))) \<and>
   1000000000 * (1 - 3602879701896397 / 36028797018963968) - 3 / 2 <
     (of_int (sint (fst (Delay (amd64 timer_first)
        (jitter (constant_delay second) (Fin (3602879701896397 / 36028797018963968))
          (fixed_random (Fin (5404319552844595 / 18014398509481984)))) 1 0 ()))) :: rat) \<and>
   (of_int (sint (fst (Delay (amd64 timer_first)
        (jitter (constant_delay second) (Fin (3602879701896397 / 36028797018963968))
          (fixed_random (Fin (5404319552844595 / 18014398509481984)))) 1 0 ()))) :: rat) <
     1000000000 * (1 + 3602879701896397 / 36028797018963968) + 3 / 2"
proof -
  let ?R = "amd64 timer_first :: unit runtime"
  let ?rnd = "fixed_random (Fin (1 / 4)) :: unit Random"
  let ?sp = "3602879701896397 / 36028797018963968 :: rat"
  let ?r = "5404319552844595 / 18014398509481984 :: rat"
  let ?rnd' = "fixed_random (Fin ?r) :: unit Random"
  have i: "Delay ?R (constant_delay second) 1 0 () = (second, ())" by simp
  have o: "Delay ?R Once 1 0 () = (Exit, ())" by (simp add: Once_def)
  have sv: "(of_int (sint second) :: rat) = 1000000000"
    by (simp add: sint_second del: of_int_sint)
  have ex: "jitter_exact (of_int (sint second)) (1 / 4) (1 / 4)"
    unfolding sv by (simp add: jitter_exact_def exact64_def round64_examples)
  have jv0: "jitter_value 1000000000 (1 / 4) (1 / 4) = 3500000001 / 4"
    by (simp add: jitter_value_def)
  have jv: "jitter_value (of_int (sint second)) (1 / 4) (1 / 4) = 3500000001 / 4"
    unfolding sv by (rule jv0)
  have q: "(0::rat) < 1 / 4 \<and> (1 / 4 :: rat) < 1" by simp
  have h: "second \<noteq> Exit \<and> 0 \<le> sint second \<and> (0::rat) < 1 / 4 \<and> (1 / 4 :: rat) < 1 \<and>
      ?rnd () = (Fin (1 / 4), ()) \<and> (0::rat) \<le> 1 / 4 \<and> (1 / 4 :: rat) < 1 \<and>
      jitter_exact (of_int (sint second)) (1 / 4) (1 / 4) \<and>
      jitter_value (of_int (sint second)) (1 / 4) (1 / 4) < 2 ^ 63"
    using ex by (simp add: jv0 sint_second fixed_random_def second_def Exit_def del: of_int_sint)
  have g: "second \<noteq> Exit \<and> 0 \<le> sint second \<and> sint second < 2 ^ 48 \<and> 0 < ?sp \<and> ?sp < 1 \<and>
      ?rnd' () = (Fin ?r, ()) \<and> 0 \<le> ?r \<and> ?r < 1"
    by (simp add: sint_second fixed_random_def second_def Exit_def)
  have 1: "Delay ?R (jitter (constant_delay second) (Fin (1 / 4)) ?rnd) 1 0 () =
        (word_of_int \<lfloor>jitter_value (of_int (sint second)) (1 / 4) (1 / 4)\<rfloor>, ())"
    using Jitter_Delay[where R = ?R and s = "constant_delay second" and n = 1 and start = 0
        and w = "()" and D = second and ?w1.0 = "()" and random = ?rnd and sp = "1 / 4"
        and r = "1 / 4" and ?w2.0 = "()", THEN mp, OF i, THEN conjunct2, THEN conjunct2,
        THEN conjunct2, THEN conjunct1, THEN mp, OF h]
    by blast
  have 2: "Delay ?R (jitter Once (Fin (1 / 2)) (fixed_random (Fin (1 / 2)))) 1 0 () = (Exit, ())"
    using Jitter_Delay[where R = ?R and s = Once and n = 1 and start = 0 and w = "()" and D = Exit
        and ?w1.0 = "()" and spread = "Fin (1 / 2)" and random = "fixed_random (Fin (1 / 2))",
        THEN mp, OF o, THEN conjunct1]
    by blast
  have 3: "Jitter (constant_delay second :: unit Strategy) (Fin 0) (fixed_random (Fin (1 / 2))) =
     Inr (constant_delay second)"
    using Jitter_Delay[where R = ?R and s = "constant_delay second" and n = 1 and start = 0
        and w = "()" and D = second and ?w1.0 = "()" and random = "fixed_random (Fin (1 / 2))",
        THEN mp, OF i, THEN conjunct2, THEN conjunct1] .
  have 4: "Delay ?R (jitter (constant_delay second) (Fin (1 / 4)) ?rnd) 1 0 () = (875000000, ())"
    using 1 by (simp only: jv floor_examples word_of_int_numeral)
  have 5: "Jitter (constant_delay second :: unit Strategy) (Fin (1 / 4)) ?rnd =
     Inr (jitter (constant_delay second) (Fin (1 / 4)) ?rnd)"
    using Jitter_Delay[where R = ?R and s = "constant_delay second" and n = 1 and start = 0
        and w = "()" and D = second and ?w1.0 = "()" and random = ?rnd and sp = "1 / 4",
        THEN mp, OF i, THEN conjunct2, THEN conjunct2, THEN conjunct1, THEN mp, OF q] .
  note N = Jitter_Delay[where R = ?R and s = "constant_delay second" and n = 1 and start = 0
        and w = "()" and D = second and ?w1.0 = "()" and random = ?rnd' and sp = ?sp
        and r = ?r and ?w2.0 = "()", THEN mp, OF i, THEN conjunct2, THEN conjunct2,
        THEN conjunct2, THEN conjunct2, THEN mp, OF g]
  have 6: "1000000000 * (1 - ?sp) - 3 / 2 <
     (of_int (sint (fst (Delay ?R (jitter (constant_delay second) (Fin ?sp) ?rnd') 1 0 ()))) :: rat)"
    using N[THEN conjunct2, THEN conjunct1] by (simp only: sv)
  have 7: "(of_int (sint (fst (Delay ?R (jitter (constant_delay second) (Fin ?sp) ?rnd') 1 0 ()))) :: rat) <
     1000000000 * (1 + ?sp) + 3 / 2"
    using N[THEN conjunct2, THEN conjunct2] by (simp only: sv)
  show ?thesis
    using 4 2 3 5 6 7 by blast
qed

text \<open>
  The claim as it was stated fails: with the inner delay \<open>3\<close> ns, the spread \<open>1/2\<close>
  and the random number \<open>0\<close> the strategy returns \<open>1\<close> ns, which is below
  \<open>3 * (1 - 1/2)\<close>.
\<close>

theorem Jitter_Delay_counterexample:
  "Jitter (constant_delay 3) (Fin (1 / 2)) (fixed_random (Fin 0)) =
     Inr (jitter (constant_delay 3) (Fin (1 / 2)) (fixed_random (Fin 0))) \<and>
   Delay (amd64 timer_first) (jitter (constant_delay 3) (Fin (1 / 2)) (fixed_random (Fin 0))) 1 0 () =
     (1, ()) \<and>
   (of_int (sint (1 :: duration)) :: rat) < 3 * (1 - 1 / 2)"
  by (simp add: Jitter_def feq_def fge_def float_eval del: of_int_sint)

text \<open>
  Claim C7, amended. For \<open>d \<ge> 0\<close>, \<open>m \<ge> 0\<close> and \<open>n \<ge> 1\<close>: when no operation rounds
  (\<^verbatim>\<open>math.Pow\<close> returns \<open>m ^ (n - 1)\<close>, the product is a binary64 number) and
  \<open>d * m ^ (n - 1)\<close> is below \<open>2^63\<close>, the exponential strategy returns
  \<open>d * m ^ (n - 1)\<close> truncated to whole nanoseconds. When \<^verbatim>\<open>math.Pow\<close> returns
  \<open>m ^ (n - 1)\<close> and only the product rounds, with \<open>d\<close>, \<open>n\<close> and \<open>d * m ^ (n - 1)\<close>
  below \<open>2^53\<close>, the returned duration is above \<open>d * m ^ (n - 1) - 3/2\<close> and at most
  \<open>d * m ^ (n - 1) + 1/2\<close>. When \<^verbatim>\<open>math.Pow\<close> returns
  \<open>1, 2, 4, 8\<close> for the powers of \<open>2\<close>, \<^verbatim>\<open>exponential(1s, 2.0)\<close> yields exactly
  1s, 2s, 4s, 8s at \<open>n = 1..4\<close>. The constructor returns the exponential struct for
  \<open>d > 0\<close> and \<open>m\<close> positive and other than \<open>1\<close>, \<^verbatim>\<open>Constant(d)\<close> for \<open>m = 1\<close> and
  \<^verbatim>\<open>Constant(0)\<close> for \<open>d = 0\<close> or \<open>m = 0\<close>.
\<close>

theorem Exponential_Delay:
  "(0 \<le> sint d \<and> 0 \<le> m \<and> 1 \<le> n \<and> exponential_exact R (sint d) m n \<and>
    of_int (sint d) * m ^ nat (n - 1) < 2 ^ 63 \<longrightarrow>
      Delay R (exponential d (Fin m)) n start w =
        (word_of_int \<lfloor>of_int (sint d) * m ^ nat (n - 1)\<rfloor>, w) \<and>
      sint (fst (Delay R (exponential d (Fin m)) n start w)) = \<lfloor>of_int (sint d) * m ^ nat (n - 1)\<rfloor>) \<and>
   (0 \<le> sint d \<and> sint d < 2 ^ 53 \<and> 0 \<le> m \<and> 1 \<le> n \<and> n \<le> 2 ^ 53 \<and>
    pow R (Fin m) (Fin (of_int (n - 1))) = Fin (m ^ nat (n - 1)) \<and>
    of_int (sint d) * m ^ nat (n - 1) < 2 ^ 53 \<longrightarrow>
      of_int (sint d) * m ^ nat (n - 1) - 3 / 2 <
        of_int (sint (fst (Delay R (exponential d (Fin m)) n start w))) \<and>
      of_int (sint (fst (Delay R (exponential d (Fin m)) n start w))) \<le>
        of_int (sint d) * m ^ nat (n - 1) + 1 / 2) \<and>
   (pow R (Fin 2) (Fin 0) = Fin 1 \<and> pow R (Fin 2) (Fin 1) = Fin 2 \<and>
    pow R (Fin 2) (Fin 2) = Fin 4 \<and> pow R (Fin 2) (Fin 3) = Fin 8 \<longrightarrow>
      map (\<lambda>n. fst (Delay R (exponential second (Fin 2)) n start w)) [1, 2, 3, 4] =
        [second, 2 * second, 4 * second, 8 * second]) \<and>
   (0 \<le> sint d \<and> d \<noteq> 0 \<and> 0 < m \<and> m \<noteq> 1 \<longrightarrow>
      Exponential d (Fin m) = Inr (exponential d (Fin m))) \<and>
   (0 \<le> sint d \<longrightarrow> Exponential d (Fin 1) = Constant d) \<and>
   (0 \<le> sint d \<and> 0 \<le> m \<and> (d = 0 \<or> m = 0) \<longrightarrow> Exponential d (Fin m) = Constant 0)"
proof (intro conjI impI)
  assume h: "0 \<le> sint d \<and> 0 \<le> m \<and> 1 \<le> n \<and> exponential_exact R (sint d) m n \<and>
    of_int (sint d) * m ^ nat (n - 1) < 2 ^ 63"
  then have d: "0 \<le> sint d" and m: "0 \<le> m" and ex: "exponential_exact R (sint d) m n"
    and rng: "of_int (sint d) * m ^ nat (n - 1) < (2 ^ 63 :: rat)"
    by blast+
  show "Delay R (exponential d (Fin m)) n start w =
        (word_of_int \<lfloor>of_int (sint d) * m ^ nat (n - 1)\<rfloor>, w)"
    by (rule exponential_Delay_exact_value(1)[OF d m ex rng])
  show "sint (fst (Delay R (exponential d (Fin m)) n start w)) = \<lfloor>of_int (sint d) * m ^ nat (n - 1)\<rfloor>"
    by (rule exponential_Delay_exact_value(2)[OF d m ex rng])
next
  assume h: "0 \<le> sint d \<and> sint d < 2 ^ 53 \<and> 0 \<le> m \<and> 1 \<le> n \<and> n \<le> 2 ^ 53 \<and>
    pow R (Fin m) (Fin (of_int (n - 1))) = Fin (m ^ nat (n - 1)) \<and>
    of_int (sint d) * m ^ nat (n - 1) < 2 ^ 53"
  then have d: "0 \<le> sint d" "sint d < 2 ^ 53" and m: "0 \<le> m" and n: "1 \<le> n" "n \<le> 2 ^ 53"
    and pw: "pow R (Fin m) (Fin (of_int (n - 1))) = Fin (m ^ nat (n - 1))"
    and x: "of_int (sint d) * m ^ nat (n - 1) < (2 ^ 53 :: rat)"
    by blast+
  show "of_int (sint d) * m ^ nat (n - 1) - 3 / 2 <
        of_int (sint (fst (Delay R (exponential d (Fin m)) n start w)))"
    by (rule exponential_Delay_near(1)[OF d m n pw x])
  show "of_int (sint (fst (Delay R (exponential d (Fin m)) n start w))) \<le>
        of_int (sint d) * m ^ nat (n - 1) + 1 / 2"
    by (rule exponential_Delay_near(2)[OF d m n pw x])
next
  assume p: "pow R (Fin 2) (Fin 0) = Fin 1 \<and> pow R (Fin 2) (Fin 1) = Fin 2 \<and>
    pow R (Fin 2) (Fin 2) = Fin 4 \<and> pow R (Fin 2) (Fin 3) = Fin 8"
  show "map (\<lambda>n. fst (Delay R (exponential second (Fin 2)) n start w)) [1, 2, 3, 4] =
        [second, 2 * second, 4 * second, 8 * second]"
    using p by (intro exponential_scenario) blast+
next
  assume "0 \<le> sint d \<and> d \<noteq> 0 \<and> 0 < m \<and> m \<noteq> 1"
  then show "Exponential d (Fin m) = Inr (exponential d (Fin m))"
    by (simp add: Exponential_def feq_def)
next
  assume "0 \<le> sint d"
  then show "Exponential d (Fin 1) = Constant d"
    by (auto simp add: Exponential_def feq_def Constant_def)
next
  assume "0 \<le> sint d \<and> 0 \<le> m \<and> (d = 0 \<or> m = 0)"
  then show "Exponential d (Fin m) = Constant 0"
    by (auto simp add: Exponential_def feq_def)
qed

theorem Exponential_Delay_witness:
  "Delay (amd64 timer_first) (exponential 3 (Fin (3 / 2))) 3 0 () = (6, ()) \<and>
   4503599627370495 * (3 / 2) - 3 / 2 <
     (of_int (sint (fst (Delay (amd64 timer_first)
        (exponential 4503599627370495 (Fin (3 / 2))) 2 0 ()))) :: rat) \<and>
   (of_int (sint (fst (Delay (amd64 timer_first)
        (exponential 4503599627370495 (Fin (3 / 2))) 2 0 ()))) :: rat) \<le>
     4503599627370495 * (3 / 2) + 1 / 2 \<and>
   map (\<lambda>n. fst (Delay (amd64 timer_first) (exponential second (Fin 2)) n 0 ())) [1, 2, 3, 4] =
     [second, 2 * second, 4 * second, 8 * second] \<and>
   (Exponential 3 (Fin (3 / 2)) :: panic + unit Strategy) = Inr (exponential 3 (Fin (3 / 2))) \<and>
   (Exponential second (Fin 1) :: panic + unit Strategy) = Constant second \<and>
   (Exponential 0 (Fin 2) :: panic + unit Strategy) = Constant 0 \<and>
   (Exponential second (Fin 0) :: panic + unit Strategy) = Constant 0"
proof -
  let ?R = "amd64 timer_first :: unit runtime"
  let ?d = "4503599627370495 :: duration"
  note T = Exponential_Delay[where R = ?R and start = 0 and w = "()"]
  have ex: "exponential_exact ?R (sint (3 :: duration)) (3 / 2) 3"
    by (simp add: exponential_exact_def exact64_def amd64_def math_Pow_def round64_examples
        power2_eq_square)
  have h: "0 \<le> sint (3 :: duration) \<and> (0::rat) \<le> 3 / 2 \<and> (1::int) \<le> 3 \<and>
      exponential_exact ?R (sint (3 :: duration)) (3 / 2) 3 \<and>
      of_int (sint (3 :: duration)) * (3 / 2 :: rat) ^ nat (3 - 1) < 2 ^ 63"
    using ex by (simp add: power2_eq_square del: of_int_sint)
  have v: "of_int (sint (3 :: duration)) * (3 / 2 :: rat) ^ nat (3 - 1) = 27 / 4"
    by (simp add: power2_eq_square)
  have sd: "sint ?d = 4503599627370495" by simp
  have vd: "of_int (sint ?d) * (3 / 2 :: rat) ^ nat (2 - 1) = 4503599627370495 * (3 / 2)"
    by (simp only: sd) simp
  have g: "0 \<le> sint ?d \<and> sint ?d < 2 ^ 53 \<and> (0::rat) \<le> 3 / 2 \<and> (1::int) \<le> 2 \<and> (2::int) \<le> 2 ^ 53 \<and>
      pow ?R (Fin (3 / 2)) (Fin (of_int (2 - 1))) = Fin ((3 / 2) ^ nat (2 - 1)) \<and>
      of_int (sint ?d) * (3 / 2 :: rat) ^ nat (2 - 1) < 2 ^ 53"
    by (simp add: sd amd64_def math_Pow_def round64_examples del: of_int_sint)
  have p: "pow ?R (Fin 2) (Fin 0) = Fin 1 \<and> pow ?R (Fin 2) (Fin 1) = Fin 2 \<and>
      pow ?R (Fin 2) (Fin 2) = Fin 4 \<and> pow ?R (Fin 2) (Fin 3) = Fin 8"
    by (simp add: amd64_def math_Pow_def round64_examples)
  have 1: "Delay ?R (exponential 3 (Fin (3 / 2))) 3 0 () =
      (word_of_int \<lfloor>of_int (sint (3 :: duration)) * (3 / 2 :: rat) ^ nat (3 - 1)\<rfloor>, ())"
    using T[where d = 3 and m = "3 / 2" and n = 3, THEN conjunct1, THEN mp, OF h] by blast
  note N = T[where d = ?d and m = "3 / 2" and n = 2, THEN conjunct2, THEN conjunct1, THEN mp, OF g]
  have 8: "4503599627370495 * (3 / 2) - 3 / 2 <
     (of_int (sint (fst (Delay ?R (exponential ?d (Fin (3 / 2))) 2 0 ()))) :: rat)"
    using N[THEN conjunct1] by (simp only: vd)
  have 9: "(of_int (sint (fst (Delay ?R (exponential ?d (Fin (3 / 2))) 2 0 ()))) :: rat) \<le>
     4503599627370495 * (3 / 2) + 1 / 2"
    using N[THEN conjunct2] by (simp only: vd)
  have 2: "map (\<lambda>n. fst (Delay ?R (exponential second (Fin 2)) n 0 ())) [1, 2, 3, 4] =
     [second, 2 * second, 4 * second, 8 * second]"
    using T[THEN conjunct2, THEN conjunct2, THEN conjunct1, THEN mp, OF p] .
  have c: "0 \<le> sint second" "0 \<le> sint (0 :: duration)" "0 \<le> sint (3 :: duration)"
    "second \<noteq> 0"
    by (simp_all add: second_def)
  have 3: "(Exponential 3 (Fin (3 / 2)) :: panic + unit Strategy) = Inr (exponential 3 (Fin (3 / 2)))"
    using T[where d = 3 and m = "3 / 2", THEN conjunct2, THEN conjunct2, THEN conjunct2,
        THEN conjunct1] c by simp
  have 4: "(Exponential second (Fin 1) :: panic + unit Strategy) = Constant second"
    using T[where d = second, THEN conjunct2, THEN conjunct2, THEN conjunct2, THEN conjunct2,
        THEN conjunct1] c by simp
  have 5: "(Exponential 0 (Fin 2) :: panic + unit Strategy) = Constant 0"
    using T[where d = 0 and m = 2, THEN conjunct2, THEN conjunct2, THEN conjunct2, THEN conjunct2,
        THEN conjunct2] c
    by simp
  have 6: "(Exponential second (Fin 0) :: panic + unit Strategy) = Constant 0"
    using T[where d = second and m = 0, THEN conjunct2, THEN conjunct2, THEN conjunct2,
        THEN conjunct2, THEN conjunct2] c
    by simp
  have 7: "Delay ?R (exponential 3 (Fin (3 / 2))) 3 0 () = (6, ())"
    using 1 by (simp only: v floor_examples word_of_int_numeral)
  show ?thesis
    using 7 8 9 2 3 4 5 6 by blast
qed

text \<open>
  The claim as it was stated fails: \<^verbatim>\<open>exponential(3ns, 1.5)\<close> returns \<open>4\<close> ns for
  \<open>n = 2\<close>, and \<open>3 * 1.5 ^ 1\<close> is \<open>4.5\<close>.
\<close>

theorem Exponential_Delay_counterexample:
  "Exponential 3 (Fin (3 / 2)) = Inr (exponential 3 (Fin (3 / 2))) \<and>
   Delay (amd64 timer_first) (exponential 3 (Fin (3 / 2))) 2 0 () = (4, ()) \<and>
   (of_int (sint (4 :: duration)) :: rat) \<noteq> 3 * (3 / 2) ^ nat (2 - 1)"
  by (simp add: Exponential_def feq_def float_eval del: of_int_sint)

end
